theory Spec2Isabelle
  imports Main "HOL-Library.Word"
begin

section \<open>JavaScript strings\<close>

text \<open>
  A JavaScript string is a sequence of UTF-16 code units, and \<open>s.length\<close> counts code
  units. The ASCII literals of the source are written with \<open>lit\<close>.
\<close>

type_synonym jsstring = "16 word list"

definition lit :: "string \<Rightarrow> jsstring" where
  "lit s = map of_char s"

definition LF :: "16 word" where
  "LF = 10"

definition CR :: "16 word" where
  "CR = 13"

text \<open>\<open>line.match(/^p/)\<close> for a literal \<open>p\<close>: a prefix test.\<close>

fun starts_with :: "jsstring \<Rightarrow> jsstring \<Rightarrow> bool" where
  "starts_with [] s = True"
| "starts_with (p # ps) [] = False"
| "starts_with (p # ps) (c # cs) = (p = c \<and> starts_with ps cs)"

section \<open>Markup renderer: \<open>format_markup\<close>\<close>

text \<open>
  \<open>desc.split(/\r?\n/)\<close> (jirapub.js line 203, part_001 line 252): a separator is a line
  feed, together with the carriage return right before it when there is one. The piece
  after the last separator is kept, also when it is empty, so the result is never empty:
  \<open>''.split(/\r?\n/)\<close> is \<open>['']\<close>.
\<close>

fun cons_hd :: "16 word \<Rightarrow> jsstring list \<Rightarrow> jsstring list" where
  "cons_hd c [] = [[c]]"
| "cons_hd c (l # ls) = (c # l) # ls"

fun split_lines :: "jsstring \<Rightarrow> jsstring list" where
  "split_lines [] = [[]]"
| "split_lines [c] = (if c = LF then [[], []] else [[c]])"
| "split_lines (c # d # cs) =
     (if c = LF then [] # split_lines (d # cs)
      else if c = CR \<and> d = LF then [] # split_lines cs
      else cons_hd c (split_lines (d # cs)))"

text \<open>\<open>desc.split(/\r\n/)\<close> (part_000 line 139): only the two-unit sequence separates.\<close>

fun split_crlf :: "jsstring \<Rightarrow> jsstring list" where
  "split_crlf [] = [[]]"
| "split_crlf [c] = [[c]]"
| "split_crlf (c # d # cs) =
     (if c = CR \<and> d = LF then [] # split_crlf cs
      else cons_hd c (split_crlf (d # cs)))"

text \<open>\<open>line.match(/^{noformat/) || line.match(/^{code/)\<close>\<close>

definition is_fence :: "jsstring \<Rightarrow> bool" where
  "is_fence line \<longleftrightarrow>
     starts_with (lit ''{noformat'') line \<or> starts_with (lit ''{code'') line"

definition PRE_OPEN :: jsstring where
  "PRE_OPEN = lit ''<pre style=\"border: 2px solid black;'' @
     lit ''font-family: Menlo, Courier, '' @
     lit ''Lucida Console, Monospace;'' @
     lit ''background-color: #eeeeee;\">'' @ [LF]"

definition PRE_CLOSE :: jsstring where
  "PRE_CLOSE = lit ''</pre>'' @ [LF]"

definition BR :: jsstring where
  "BR = lit ''<br>'' @ [LF]"

definition NL :: jsstring where
  "NL = [LF]"

text \<open>
  The loop of \<open>format_markup\<close> (part_001 lines 255-276), with its two variables \<open>fmton\<close>
  and \<open>out\<close>. \<open>enc\<close> is \<open>mod_ent.encode\<close>, the entity-encoding library, which is not
  part of the repository.
\<close>

fun fm_loop :: "(jsstring \<Rightarrow> jsstring) \<Rightarrow> jsstring list \<Rightarrow> bool \<Rightarrow> jsstring \<Rightarrow> jsstring" where
  "fm_loop enc [] fmton out = out"
| "fm_loop enc (line # lines) fmton out =
     (if is_fence line then
        (if fmton then fm_loop enc lines (\<not> fmton) (out @ PRE_CLOSE)
         else fm_loop enc lines (\<not> fmton) (out @ PRE_OPEN))
      else
        (if fmton then fm_loop enc lines fmton (out @ enc line @ NL)
         else fm_loop enc lines fmton (out @ enc line @ BR)))"

definition format_markup :: "(jsstring \<Rightarrow> jsstring) \<Rightarrow> jsstring \<Rightarrow> jsstring" where
  "format_markup enc desc = fm_loop enc (split_lines desc) False []"

text \<open>
  The two older variants of the same function emit the line itself
  (\<open>out += line + '<br>\n'\<close>, jirapub.js lines 219-223 and part_000 lines 155-159), and
  part_000 splits at \<open>\r\n\<close> only.
\<close>

definition format_markup_jirapub :: "jsstring \<Rightarrow> jsstring" where
  "format_markup_jirapub desc = fm_loop (\<lambda>line. line) (split_lines desc) False []"

definition format_markup_part0 :: "jsstring \<Rightarrow> jsstring" where
  "format_markup_part0 desc = fm_loop (\<lambda>line. line) (split_crlf desc) False []"

text \<open>The fragments the loop appends, one for each line.\<close>

fun fm_frags :: "(jsstring \<Rightarrow> jsstring) \<Rightarrow> jsstring list \<Rightarrow> bool \<Rightarrow> jsstring list" where
  "fm_frags enc [] fmton = []"
| "fm_frags enc (line # lines) fmton =
     (if is_fence line then (if fmton then PRE_CLOSE else PRE_OPEN) # fm_frags enc lines (\<not> fmton)
      else (enc line @ (if fmton then NL else BR)) # fm_frags enc lines fmton)"

text \<open>The value of \<open>fmton\<close> after the loop has gone over some lines.\<close>

fun fmton_after :: "bool \<Rightarrow> jsstring list \<Rightarrow> bool" where
  "fmton_after fmton [] = fmton"
| "fmton_after fmton (line # lines) = fmton_after (if is_fence line then \<not> fmton else fmton) lines"

text \<open>\<open>s.indexOf(p) !== -1\<close>: the string \<open>p\<close> occurs in \<open>s\<close>.\<close>

fun occurs :: "jsstring \<Rightarrow> jsstring \<Rightarrow> bool" where
  "occurs p [] = (p = [])"
| "occurs p (c # cs) = (starts_with p (c # cs) \<or> occurs p cs)"

subsection \<open>Text that carries no markup\<close>

definition markup_char :: "16 word \<Rightarrow> bool" where
  "markup_char c \<longleftrightarrow> c = 0x3C \<or> c = 0x3E \<or> c = 0x22 \<or> c = 0x27"

definition entity_char :: "16 word \<Rightarrow> bool" where
  "entity_char c \<longleftrightarrow>
     (0x30 \<le> c \<and> c \<le> 0x39) \<or> (0x41 \<le> c \<and> c \<le> 0x5A) \<or> (0x61 \<le> c \<and> c \<le> 0x7A) \<or> c = 0x23"

datatype scan_state = InText | AfterAmp | InEntity

text \<open>
  A string is character data when it has none of \<open><\<close>, \<open>>\<close>, \<open>"\<close>, \<open>'\<close> and every
  \<open>&\<close> in it starts a character reference \<open>&name;\<close> or \<open>&#number;\<close>.
\<close>

fun text_scan :: "scan_state \<Rightarrow> jsstring \<Rightarrow> bool" where
  "text_scan st [] = (st = InText)"
| "text_scan InText (c # cs) =
     (if markup_char c then False
      else if c = 0x26 then text_scan AfterAmp cs
      else text_scan InText cs)"
| "text_scan AfterAmp (c # cs) = (entity_char c \<and> text_scan InEntity cs)"
| "text_scan InEntity (c # cs) =
     (if c = 0x3B then text_scan InText cs
      else entity_char c \<and> text_scan InEntity cs)"

definition text_only :: "jsstring \<Rightarrow> bool" where
  "text_only s = text_scan InText s"

definition escapes :: "(jsstring \<Rightarrow> jsstring) \<Rightarrow> bool" where
  "escapes enc \<longleftrightarrow> (\<forall>s. text_only (enc s))"

text \<open>
  Modelled from the spec: \<open>mod_ent.encode\<close>, of the entity-encoding library \<open>ent\<close>, whose
  source is not in the repository. The spec asks that it escape at minimum \<open>&\<close>, \<open><\<close>,
  \<open>>\<close> and the quote characters; this encoder does exactly that and leaves every other
  code unit alone.
\<close>

definition ent_char :: "16 word \<Rightarrow> jsstring" where
  "ent_char c =
     (if c = 0x26 then lit ''&amp;''
      else if c = 0x3C then lit ''&lt;''
      else if c = 0x3E then lit ''&gt;''
      else if c = 0x22 then lit ''&quot;''
      else if c = 0x27 then lit ''&#39;''
      else [c])"

definition ent_encode :: "jsstring \<Rightarrow> jsstring" where
  "ent_encode s = concat (map ent_char s)"

section \<open>Runtime values\<close>

datatype js_error = RangeError | TypeError | AssertionError

text \<open>
  \<open>new Date(v)\<close> and \<open>toISOString()\<close> belong to the JavaScript runtime. Which strings
  parse as dates, and the text of a date, are parameters: \<open>date_parse\<close> gives the time
  value in milliseconds (\<open>None\<close> for an invalid date), \<open>date_iso\<close> its ISO-8601 text.
  \<open>new Date(undefined)\<close> is an invalid date, and \<open>toISOString\<close> of an invalid date throws
  a RangeError.
\<close>

record date_lib =
  date_parse :: "jsstring \<Rightarrow> int option"
  date_iso :: "int \<Rightarrow> jsstring"

definition new_Date :: "date_lib \<Rightarrow> jsstring option \<Rightarrow> int option" where
  "new_Date D v = (case v of None \<Rightarrow> None | Some s \<Rightarrow> date_parse D s)"

definition toISOString :: "date_lib \<Rightarrow> int option \<Rightarrow> js_error + jsstring" where
  "toISOString D t = (case t of None \<Rightarrow> Inl RangeError | Some ms \<Rightarrow> Inr (date_iso D ms))"

text \<open>\<open>'' + v\<close> for a string that may be absent.\<close>

definition js_str :: "jsstring option \<Rightarrow> jsstring" where
  "js_str v = (case v of None \<Rightarrow> lit ''undefined'' | Some s \<Rightarrow> s)"

section \<open>The issue document\<close>

text \<open>
  The upstream document, with the shape of the spec's data model. An optional field is an
  \<open>option\<close>: \<open>None\<close> is a key that is absent, which JavaScript reads as \<open>undefined\<close>.
  \<open>ifields\<close> is the source's \<open>issue.fields\<close>, and \<open>displayName\<close> its
  \<open>com.author.displayName\<close>. The tests of the source are tests of truthiness: an object
  and an array, also an empty one, pass; an absent field and the empty string do not.
\<close>

record resolution =
  res_name :: jsstring
  res_description :: jsstring

record fixversion =
  fv_name :: jsstring
  releaseDate :: "jsstring option"

record comment =
  displayName :: jsstring
  created :: jsstring
  updated :: "jsstring option"
  body :: jsstring

record comment_block =
  total :: int
  maxResults :: int
  comments :: "comment list"

record issue_fields =
  summary :: jsstring
  labels :: "jsstring list option"
  resolution :: "resolution option"
  resolutiondate :: "jsstring option"
  fixVersions :: "fixversion list option"
  description :: "jsstring option"
  comment :: "comment_block option"

record issue =
  key :: jsstring
  ifields :: "issue_fields option"

datatype level = Error | Info

type_synonym log_entry = "level \<times> jsstring"

section \<open>Issue page composer: \<open>format_issue\<close>\<close>

text \<open>part_001 lines 288-295: the resolution date is read whenever there is a resolution.\<close>

definition resolution_step :: "date_lib \<Rightarrow> issue_fields \<Rightarrow> jsstring \<Rightarrow> js_error + jsstring" where
  "resolution_step D f out =
     (case resolution f of
        None \<Rightarrow> Inr out
      | Some r \<Rightarrow>
          (case toISOString D (new_Date D (resolutiondate f)) of
             Inl e \<Rightarrow> Inl e
           | Inr rd \<Rightarrow>
               Inr (out @ lit ''<h2>Resolution</h2>'' @ [LF] @
                    lit ''<p><b>'' @ res_name r @ lit '':</b> '' @
                    res_description r @ lit ''<br>'' @ [LF] @
                    lit ''(Resolution Date: '' @ rd @ lit '')</p>'' @ [LF])))"

text \<open>part_001 lines 297-305.\<close>

fun fix_loop :: "fixversion list \<Rightarrow> jsstring \<Rightarrow> jsstring" where
  "fix_loop [] out = out"
| "fix_loop (fv # fvs) out =
     fix_loop fvs (out @ lit ''<p><b>'' @ fv_name fv @ lit ''</b> (Release Date: '' @
                   js_str (releaseDate fv) @ lit '')</p>'' @ [LF])"

definition fix_step :: "issue_fields \<Rightarrow> jsstring \<Rightarrow> jsstring" where
  "fix_step f out =
     (case fixVersions f of
        None \<Rightarrow> out
      | Some fvs \<Rightarrow>
          if length fvs > 0 then fix_loop fvs (out @ lit ''<h2>Fix Versions</h2>'' @ [LF])
          else out)"

text \<open>part_001 lines 307-312. The empty string is falsy.\<close>

definition desc_step :: "(jsstring \<Rightarrow> jsstring) \<Rightarrow> issue_fields \<Rightarrow> jsstring \<Rightarrow> jsstring" where
  "desc_step markup f out =
     (case description f of
        None \<Rightarrow> out
      | Some d \<Rightarrow>
          if d \<noteq> [] then
            out @ lit ''<h2>Description</h2>'' @ [LF] @ lit ''<div>'' @
            markup d @ lit ''</div>'' @ [LF]
          else out)"

text \<open>part_001 lines 327-348: the loop over the comments, with \<open>dark\<close> and \<open>out\<close>.\<close>

definition updated_line :: "date_lib \<Rightarrow> comment \<Rightarrow> jsstring \<Rightarrow> js_error + jsstring" where
  "updated_line D com out =
     (case updated com of
        None \<Rightarrow> Inr out
      | Some u \<Rightarrow>
          if u \<noteq> [] \<and> u \<noteq> created com then
            (case toISOString D (new_Date D (Some u)) of
               Inl e \<Rightarrow> Inl e
             | Inr ud \<Rightarrow> Inr (out @ lit ''Updated at '' @ ud @ lit ''<br>'' @ [LF]))
          else Inr out)"

fun comment_loop ::
  "date_lib \<Rightarrow> (jsstring \<Rightarrow> jsstring) \<Rightarrow> comment list \<Rightarrow> bool \<Rightarrow> jsstring \<Rightarrow> js_error + jsstring" where
  "comment_loop D markup [] dark out = Inr out"
| "comment_loop D markup (com # coms) dark out =
     (case toISOString D (new_Date D (Some (created com))) of
        Inl e \<Rightarrow> Inl e
      | Inr cdtc \<Rightarrow>
          (case updated_line D com
                  (out @ lit ''<div style=\"background-color: '' @
                   (if dark then lit ''#DDDDDD'' else lit ''#EEEEEE'') @ lit '';\">'' @ [LF] @
                   lit ''<b>'' @
                   lit ''Comment by '' @ displayName com @ lit ''<br>'' @ [LF] @
                   lit ''Created at '' @ cdtc @ lit ''<br>'' @ [LF]) of
             Inl e \<Rightarrow> Inl e
           | Inr out' \<Rightarrow>
               comment_loop D markup coms (\<not> dark)
                 (out' @ lit ''</b>'' @ markup (body com) @
                  lit ''</div><br>'' @ [LF])))"

text \<open>part_001 lines 314-349. The warning is written before the loop runs.\<close>

definition comment_warning :: jsstring where
  "comment_warning = lit ''comment maxResults and total not equal for issue''"

definition comment_step ::
  "date_lib \<Rightarrow> (jsstring \<Rightarrow> jsstring) \<Rightarrow> issue_fields \<Rightarrow> jsstring \<Rightarrow>
     log_entry list \<times> (js_error + jsstring)" where
  "comment_step D markup f out =
     (case comment f of
        None \<Rightarrow> ([], Inr out)
      | Some c \<Rightarrow>
          (if maxResults c \<noteq> total c then [(Error, comment_warning)] else [],
           comment_loop D markup (comments c) False (out @ lit ''<h2>Comments</h2>'' @ [LF])))"

text \<open>
  \<open>format_issue\<close> (part_001 lines 281-352; jirapub.js lines 230-298 and part_000 lines
  166-234 have the same text). It returns what it wrote to the log and either the exception
  it threw or the page fragment. \<open>markup\<close> is the \<open>format_markup\<close> of the file:
  \<open>format_markup enc\<close> in part_001.
\<close>

definition format_issue ::
  "date_lib \<Rightarrow> (jsstring \<Rightarrow> jsstring) \<Rightarrow> issue \<Rightarrow> log_entry list \<times> (js_error + jsstring)" where
  "format_issue D markup i =
     (case ifields i of
        None \<Rightarrow> ([], Inl TypeError)
      | Some f \<Rightarrow>
          (case resolution_step D f
                  (lit ''<h1>'' @ key i @ lit '': '' @ summary f @ lit ''</h1>'' @ [LF]) of
             Inl e \<Rightarrow> ([], Inl e)
           | Inr out \<Rightarrow> comment_step D markup f (desc_step markup f (fix_step f out))))"

section \<open>The page in closed form\<close>

text \<open>
  What \<open>format_issue\<close> builds when no date fails, written without the loops and the
  exceptions: one string for each section, empty when the section is left out.
\<close>

definition iso_opt :: "date_lib \<Rightarrow> jsstring option \<Rightarrow> jsstring" where
  "iso_opt D v = (case new_Date D v of None \<Rightarrow> [] | Some ms \<Rightarrow> date_iso D ms)"

definition resolution_html :: "date_lib \<Rightarrow> issue_fields \<Rightarrow> jsstring" where
  "resolution_html D f =
     (case resolution f of
        None \<Rightarrow> []
      | Some r \<Rightarrow>
          lit ''<h2>Resolution</h2>'' @ [LF] @
          lit ''<p><b>'' @ res_name r @ lit '':</b> '' @ res_description r @ lit ''<br>'' @ [LF] @
          lit ''(Resolution Date: '' @ iso_opt D (resolutiondate f) @ lit '')</p>'' @ [LF])"

definition fixversion_html :: "fixversion \<Rightarrow> jsstring" where
  "fixversion_html fv =
     lit ''<p><b>'' @ fv_name fv @ lit ''</b> (Release Date: '' @
     js_str (releaseDate fv) @ lit '')</p>'' @ [LF]"

definition fixversions_html :: "issue_fields \<Rightarrow> jsstring" where
  "fixversions_html f =
     (case fixVersions f of
        None \<Rightarrow> []
      | Some fvs \<Rightarrow>
          if fvs = [] then []
          else lit ''<h2>Fix Versions</h2>'' @ [LF] @ concat (map fixversion_html fvs))"

definition description_html :: "(jsstring \<Rightarrow> jsstring) \<Rightarrow> issue_fields \<Rightarrow> jsstring" where
  "description_html markup f =
     (case description f of
        None \<Rightarrow> []
      | Some d \<Rightarrow>
          if d = [] then []
          else lit ''<h2>Description</h2>'' @ [LF] @ lit ''<div>'' @ markup d @
               lit ''</div>'' @ [LF])"

text \<open>The test of part_001 line 338, \<open>com.updated && com.updated !== com.created\<close>.\<close>

definition shows_updated :: "comment \<Rightarrow> bool" where
  "shows_updated com =
     (case updated com of None \<Rightarrow> False | Some u \<Rightarrow> u \<noteq> [] \<and> u \<noteq> created com)"

definition comment_html :: "date_lib \<Rightarrow> (jsstring \<Rightarrow> jsstring) \<Rightarrow> bool \<Rightarrow> comment \<Rightarrow> jsstring" where
  "comment_html D markup dark com =
     lit ''<div style=\"background-color: '' @
     (if dark then lit ''#DDDDDD'' else lit ''#EEEEEE'') @ lit '';\">'' @ [LF] @
     lit ''<b>'' @
     lit ''Comment by '' @ displayName com @ lit ''<br>'' @ [LF] @
     lit ''Created at '' @ iso_opt D (Some (created com)) @ lit ''<br>'' @ [LF] @
     (if shows_updated com
      then lit ''Updated at '' @ iso_opt D (updated com) @ lit ''<br>'' @ [LF] else []) @
     lit ''</b>'' @ markup (body com) @ lit ''</div><br>'' @ [LF]"

definition comments_html :: "date_lib \<Rightarrow> (jsstring \<Rightarrow> jsstring) \<Rightarrow> issue_fields \<Rightarrow> jsstring" where
  "comments_html D markup f =
     (case comment f of
        None \<Rightarrow> []
      | Some c \<Rightarrow>
          lit ''<h2>Comments</h2>'' @ [LF] @
          concat (map (\<lambda>(n, com). comment_html D markup (odd n) com)
                    (enumerate 0 (comments c))))"

text \<open>The dates that \<open>format_issue\<close> turns into text are all valid.\<close>

definition comment_dates_ok :: "date_lib \<Rightarrow> comment \<Rightarrow> bool" where
  "comment_dates_ok D com \<longleftrightarrow>
     new_Date D (Some (created com)) \<noteq> None \<and>
     (shows_updated com \<longrightarrow> new_Date D (updated com) \<noteq> None)"

definition dates_ok :: "date_lib \<Rightarrow> issue_fields \<Rightarrow> bool" where
  "dates_ok D f \<longleftrightarrow>
     (resolution f \<noteq> None \<longrightarrow> new_Date D (resolutiondate f) \<noteq> None) \<and>
     (case comment f of None \<Rightarrow> True | Some c \<Rightarrow> list_all (comment_dates_ok D) (comments c))"

text \<open>What \<open>format_issue\<close> logs.\<close>

definition warnings :: "issue_fields \<Rightarrow> log_entry list" where
  "warnings f =
     (case comment f of
        None \<Rightarrow> []
      | Some c \<Rightarrow> if maxResults c \<noteq> total c then [(Error, comment_warning)] else [])"

text \<open>One row of the index table (part_001 lines 143-145).\<close>

definition index_row :: "issue \<Rightarrow> jsstring" where
  "index_row j =
     (case ifields j of
        None \<Rightarrow> []
      | Some f \<Rightarrow>
          lit ''<tr><td><a href=\"'' @ key j @ lit ''\">'' @ key j @ lit ''</a></td><td>'' @
          summary f @ lit ''</td></tr>'' @ [LF])"

section \<open>Request handlers\<close>

text \<open>\<open>CONFIG.label\<close> and \<open>CONFIG.url.path\<close>, the two values the handlers read.\<close>

record config =
  label :: jsstring
  url_path :: jsstring

text \<open>
  What a handler hands to the framework. \<open>res.send(code, body)\<close> gives the status and
  the body and leaves the headers to restify; the 200 path sets \<open>res.contentType\<close> and
  \<open>res.contentLength\<close> itself and writes the body.
\<close>

record response =
  status :: nat
  contentType :: "jsstring option"
  contentLength :: "nat option"
  written :: jsstring

definition send :: "nat \<Rightarrow> jsstring \<Rightarrow> response" where
  "send code b = \<lparr>status = code, contentType = None, contentLength = None, written = b\<rparr>"

definition deliver :: "jsstring \<Rightarrow> response" where
  "deliver out =
     \<lparr>status = 200, contentType = Some (lit ''text/html''),
      contentLength = Some (length out), written = out\<rparr>"

text \<open>
  The callback of \<open>JIRA.get\<close> receives an error, with its name and its message, or
  the parsed document, which may be missing.
\<close>

datatype 'a jira_reply = JiraError jsstring jsstring | JiraOk "'a option"

text \<open>
  One run of a handler: the URLs it asked the tracker for, the lines it logged, and the
  response it gave or the exception that left it.
\<close>

record handled =
  calls :: "jsstring list"
  logged :: "log_entry list"
  outcome :: "js_error + response"

text \<open>\<open>key.match(/^[A-Z]+-[0-9]+$/)\<close>: no flag, so \<open>$\<close> is the end of the string.\<close>

definition is_upper :: "16 word \<Rightarrow> bool" where
  "is_upper c \<longleftrightarrow> 0x41 \<le> c \<and> c \<le> 0x5A"

definition is_digit :: "16 word \<Rightarrow> bool" where
  "is_digit c \<longleftrightarrow> 0x30 \<le> c \<and> c \<le> 0x39"

definition key_match :: "jsstring \<Rightarrow> bool" where
  "key_match s =
     (takeWhile is_upper s \<noteq> [] \<and>
      (case dropWhile is_upper s of
         [] \<Rightarrow> False
       | h # d \<Rightarrow> h = 0x2D \<and> d \<noteq> [] \<and> list_all is_digit d))"

text \<open>
  \<open>s.replace(/p/g, r)\<close> for a literal, non-empty \<open>p\<close> without groups. In the replacement
  text \<open>$$\<close> stands for \<open>$\<close>, \<open>$&\<close> for the match, \<open>$`\<close> for the part of \<open>s\<close> before the
  match and \<open>$'\<close> for the part after it.
\<close>

fun expand :: "jsstring \<Rightarrow> jsstring \<Rightarrow> jsstring \<Rightarrow> jsstring \<Rightarrow> jsstring" where
  "expand [] m bef aft = []"
| "expand [c] m bef aft = [c]"
| "expand (c # d # r) m bef aft =
     (if c = 0x24 \<and> d = 0x24 then 0x24 # expand r m bef aft
      else if c = 0x24 \<and> d = 0x26 then m @ expand r m bef aft
      else if c = 0x24 \<and> d = 0x60 then bef @ expand r m bef aft
      else if c = 0x24 \<and> d = 0x27 then aft @ expand r m bef aft
      else c # expand (d # r) m bef aft)"

fun replace_from :: "jsstring \<Rightarrow> jsstring \<Rightarrow> jsstring \<Rightarrow> jsstring \<Rightarrow> jsstring" where
  "replace_from p r bef [] = []"
| "replace_from p r bef (c # cs) =
     (if starts_with p (c # cs) then
        expand r p bef (drop (length p - 1) cs) @
        replace_from p r (bef @ p) (drop (length p - 1) cs)
      else c # replace_from p r (bef @ [c]) cs)"

definition js_replace_all :: "jsstring \<Rightarrow> jsstring \<Rightarrow> jsstring \<Rightarrow> jsstring" where
  "js_replace_all p r s = replace_from p r [] s"

text \<open>
  \<open>template(nam)\<close> (part_001 lines 102-108): \<open>TEMPLATES\<close> is filled once from the
  files of the templates directory; the assertion throws when there is no such template.
\<close>

definition template :: "(jsstring \<rightharpoonup> jsstring) \<Rightarrow> jsstring \<Rightarrow> js_error + jsstring" where
  "template T nam = (case T nam of None \<Rightarrow> Inl AssertionError | Some t \<Rightarrow> Inr t)"

definition not_found_body :: jsstring where
  "not_found_body = lit ''Sorry, that issue does not exist.'' @ [LF]"

definition not_public_body :: jsstring where
  "not_public_body = lit ''Sorry, this issue is not public.'' @ [LF]"

text \<open>\<open>handle_issue\<close> of part_001 (lines 170-242).\<close>

definition serve_issue ::
  "(jsstring \<rightharpoonup> jsstring) \<Rightarrow> date_lib \<Rightarrow> (jsstring \<Rightarrow> jsstring) \<Rightarrow> jsstring \<Rightarrow> issue \<Rightarrow> handled" where
  "serve_issue T D enc url i =
     (case template T (lit ''primary'') of
        Inl e \<Rightarrow> \<lparr>calls = [url], logged = [(Info, lit ''serving issue'')], outcome = Inl e\<rparr>
      | Inr tmpl \<Rightarrow>
          (case format_issue D (format_markup enc) i of
             (lg, Inl e) \<Rightarrow>
               \<lparr>calls = [url], logged = (Info, lit ''serving issue'') # lg, outcome = Inl e\<rparr>
           | (lg, Inr page) \<Rightarrow>
               \<lparr>calls = [url], logged = (Info, lit ''serving issue'') # lg,
                outcome = Inr (deliver (js_replace_all (lit ''%%CONTAINER%%'') page tmpl))\<rparr>))"

definition format_error :: "jsstring \<Rightarrow> handled" where
  "format_error url =
     \<lparr>calls = [url], logged = [(Error, lit ''JIRA issue did not have expected format'')],
      outcome = Inr (send 500 [])\<rparr>"

definition invalid_key :: handled where
  "invalid_key =
     \<lparr>calls = [], logged = [(Error, lit ''invalid \"key\" provided'')],
      outcome = Inr (send 400 [])\<rparr>"

definition handle_issue ::
  "config \<Rightarrow> (jsstring \<rightharpoonup> jsstring) \<Rightarrow> date_lib \<Rightarrow> (jsstring \<Rightarrow> jsstring) \<Rightarrow>
     (jsstring \<Rightarrow> issue jira_reply) \<Rightarrow> jsstring option \<Rightarrow> handled" where
  "handle_issue C T D enc jira keyp =
     (case keyp of
        None \<Rightarrow> invalid_key
      | Some k \<Rightarrow>
          if k = [] \<or> \<not> key_match k then invalid_key
          else
            (let url = url_path C @ lit ''/issue/'' @ k in
             case jira url of
               JiraError nam msg \<Rightarrow>
                 if nam = lit ''NotFoundError'' then
                   \<lparr>calls = [url], logged = [(Error, lit ''could not find issue'')],
                    outcome = Inr (send 404 not_found_body)\<rparr>
                 else
                   \<lparr>calls = [url], logged = [(Error, lit ''error communicating with JIRA'')],
                    outcome = Inr (send 500 [])\<rparr>
             | JiraOk None \<Rightarrow> format_error url
             | JiraOk (Some i) \<Rightarrow>
                 (case ifields i of
                    None \<Rightarrow> format_error url
                  | Some f \<Rightarrow>
                      (case labels f of
                         None \<Rightarrow> format_error url
                       | Some ls \<Rightarrow>
                           if label C \<notin> set ls then
                             \<lparr>calls = [url],
                              logged = [(Error, lit ''request for non-public issue'')],
                              outcome = Inr (send 403 not_public_body)\<rparr>
                           else serve_issue T D enc url i))))"

text \<open>
  \<open>handle_issue_index\<close> of part_001 (lines 111-168). The reply holds \<open>results.issues\<close>;
  the template is fetched before the issues are read.
\<close>

fun tbody_loop :: "issue list \<Rightarrow> jsstring \<Rightarrow> js_error + jsstring" where
  "tbody_loop [] tbody = Inr tbody"
| "tbody_loop (i # rest) tbody =
     (case ifields i of
        None \<Rightarrow> Inl TypeError
      | Some f \<Rightarrow>
          tbody_loop rest
            (tbody @ lit ''<tr><td><a href=\"'' @ key i @ lit ''\">'' @
             key i @ lit ''</a></td><td>'' @
             summary f @ lit ''</td></tr>'' @ [LF]))"

definition index_page ::
  "(jsstring \<rightharpoonup> jsstring) \<Rightarrow> issue list option \<Rightarrow> js_error + jsstring" where
  "index_page T results =
     (case template T (lit ''issue_index'') of
        Inl e \<Rightarrow> Inl e
      | Inr container \<Rightarrow>
          (case results of
             None \<Rightarrow> Inl TypeError
           | Some issues \<Rightarrow>
               (case tbody_loop issues [] of
                  Inl e \<Rightarrow> Inl e
                | Inr tbody \<Rightarrow>
                    (case template T (lit ''primary'') of
                       Inl e \<Rightarrow> Inl e
                     | Inr out \<Rightarrow>
                         Inr (js_replace_all (lit ''%%CONTAINER%%'')
                                (js_replace_all (lit ''%%TABLE_BODY%%'') tbody container)
                                out)))))"

definition handle_issue_index ::
  "config \<Rightarrow> (jsstring \<rightharpoonup> jsstring) \<Rightarrow> (jsstring \<Rightarrow> issue list jira_reply) \<Rightarrow> handled" where
  "handle_issue_index C T jira =
     (let url = url_path C @ lit ''/search?jql=labels%20%3D%20%22'' @
                label C @ lit ''%22&fields=summary'' in
      case jira url of
        JiraError nam msg \<Rightarrow>
          \<lparr>calls = [url], logged = [(Error, lit ''error communicating with JIRA'')],
           outcome = Inr (send 500 [])\<rparr>
      | JiraOk results \<Rightarrow>
          (case index_page T results of
             Inl e \<Rightarrow>
               \<lparr>calls = [url], logged = [(Info, lit ''serving issue index'')], outcome = Inl e\<rparr>
           | Inr out \<Rightarrow>
               \<lparr>calls = [url], logged = [(Info, lit ''serving issue index'')],
                outcome = Inr (deliver out)\<rparr>))"

text \<open>
  The two older variants build the page in place:
  \<open>'<html><body>' + format_issue(issue) + '</body></html>'\<close> (jirapub.js lines 179-188,
  part_000 lines 115-124).
\<close>

definition serve_inline :: "date_lib \<Rightarrow> (jsstring \<Rightarrow> jsstring) \<Rightarrow> jsstring \<Rightarrow>
    log_entry list \<Rightarrow> issue \<Rightarrow> handled" where
  "serve_inline D markup url lg0 i =
     (case format_issue D markup i of
        (lg, Inl e) \<Rightarrow> \<lparr>calls = [url], logged = lg0 @ lg, outcome = Inl e\<rparr>
      | (lg, Inr page) \<Rightarrow>
          \<lparr>calls = [url], logged = lg0 @ lg,
           outcome = Inr (deliver (lit ''<html><body>'' @ page @ lit ''</body></html>''))\<rparr>)"

text \<open>\<open>handle_issue\<close> of jirapub.js (lines 128-193).\<close>

definition handle_issue_jirapub ::
  "config \<Rightarrow> date_lib \<Rightarrow> (jsstring \<Rightarrow> issue jira_reply) \<Rightarrow> jsstring option \<Rightarrow> handled" where
  "handle_issue_jirapub C D jira keyp =
     (case keyp of
        None \<Rightarrow> invalid_key
      | Some k \<Rightarrow>
          if k = [] \<or> \<not> key_match k then invalid_key
          else
            (let url = url_path C @ lit ''/issue/'' @ k in
             case jira url of
               JiraError nam msg \<Rightarrow>
                 if nam = lit ''NotFoundError'' then
                   \<lparr>calls = [url], logged = [(Error, lit ''could not find issue'')],
                    outcome = Inr (send 404 not_found_body)\<rparr>
                 else
                   \<lparr>calls = [url], logged = [(Error, lit ''error communicating with JIRA'')],
                    outcome = Inr (send 500 [])\<rparr>
             | JiraOk None \<Rightarrow> format_error url
             | JiraOk (Some i) \<Rightarrow>
                 (case ifields i of
                    None \<Rightarrow> format_error url
                  | Some f \<Rightarrow>
                      (case labels f of
                         None \<Rightarrow> format_error url
                       | Some ls \<Rightarrow>
                           if label C \<notin> set ls then
                             \<lparr>calls = [url],
                              logged = [(Error, lit ''request for non-public issue'')],
                              outcome = Inr (send 403 not_public_body)\<rparr>
                           else
                             serve_inline D format_markup_jirapub url
                               [(Info, lit ''serving issue'')] i))))"

text \<open>
  \<open>handle_issue\<close> of part_000 (lines 76-129): the label is the literal \<open>'public'\<close>,
  and nothing is logged for a 403 or a 200.
\<close>

definition handle_issue_part0 ::
  "config \<Rightarrow> date_lib \<Rightarrow> (jsstring \<Rightarrow> issue jira_reply) \<Rightarrow> jsstring option \<Rightarrow> handled" where
  "handle_issue_part0 C D jira keyp =
     (case keyp of
        None \<Rightarrow> invalid_key
      | Some k \<Rightarrow>
          if k = [] \<or> \<not> key_match k then invalid_key
          else
            (let url = url_path C @ lit ''/issue/'' @ k in
             case jira url of
               JiraError nam msg \<Rightarrow>
                 if nam = lit ''NotFoundError'' then
                   \<lparr>calls = [url], logged = [(Error, lit ''could not find issue'')],
                    outcome = Inr (send 404 not_found_body)\<rparr>
                 else
                   \<lparr>calls = [url], logged = [(Error, lit ''error communicating with JIRA'')],
                    outcome = Inr (send 500 [])\<rparr>
             | JiraOk None \<Rightarrow> format_error url
             | JiraOk (Some i) \<Rightarrow>
                 (case ifields i of
                    None \<Rightarrow> format_error url
                  | Some f \<Rightarrow>
                      (case labels f of
                         None \<Rightarrow> format_error url
                       | Some ls \<Rightarrow>
                           if lit ''public'' \<notin> set ls then
                             \<lparr>calls = [url], logged = [],
                              outcome = Inr (send 403 not_public_body)\<rparr>
                           else serve_inline D format_markup_part0 url [] i))))"

text \<open>
  The bytes of a string on the wire: \<open>res.write(out)\<close> sends UTF-8. A code unit below
  \<open>0x80\<close> is one byte, one below \<open>0x800\<close> two, a surrogate pair four, and any other
  unit three (a lone surrogate is sent as U+FFFD).
\<close>

definition unit_bytes :: "16 word \<Rightarrow> nat" where
  "unit_bytes c = (if c < 0x80 then 1 else if c < 0x800 then 2 else 3)"

fun utf8_length :: "jsstring \<Rightarrow> nat" where
  "utf8_length [] = 0"
| "utf8_length [c] = unit_bytes c"
| "utf8_length (c # d # cs) =
     (if 0xD800 \<le> c \<and> c \<le> 0xDBFF \<and> 0xDC00 \<le> d \<and> d \<le> 0xDFFF then 4 + utf8_length cs
      else unit_bytes c + utf8_length (d # cs))"

section \<open>The key pattern, as the specification words it\<close>

text \<open>
  An issue key is upper-case letters, a hyphen, digits: one letter and one digit at
  least, and nothing before or after.
\<close>

definition key_pattern :: "jsstring \<Rightarrow> bool" where
  "key_pattern s \<longleftrightarrow>
     (\<exists>a d. s = a @ [0x2D] @ d \<and> a \<noteq> [] \<and> d \<noteq> [] \<and>
            list_all is_upper a \<and> list_all is_digit d)"

section \<open>The renderer, as the specification words it\<close>

text \<open>
  A text is its lines: each line but the last together with the line ending that follows
  it, and the last line. A line ending is a line feed, or a carriage return and a line
  feed; no line holds a line feed, and a line that ends in a carriage return is not
  followed by a bare line feed (the two together are the longer line ending). Every text
  is the text of such lines, and has no other lines (\<open>text_has_lines\<close> and
  \<open>lines_unique\<close> below).
\<close>

fun lines_text :: "(jsstring \<times> jsstring) list \<Rightarrow> jsstring \<Rightarrow> jsstring" where
  "lines_text [] final = final"
| "lines_text ((l, e) # rest) final = l @ e @ lines_text rest final"

definition ended_line :: "jsstring \<times> jsstring \<Rightarrow> bool" where
  "ended_line le \<longleftrightarrow>
     LF \<notin> set (fst le) \<and>
     (snd le = [CR, LF] \<or> snd le = [LF] \<and> (fst le = [] \<or> last (fst le) \<noteq> CR))"

text \<open>A fence marker is a line beginning \<open>{code\<close> or \<open>{noformat\<close>.\<close>

definition fence_marker :: "jsstring \<Rightarrow> bool" where
  "fence_marker l \<longleftrightarrow> (\<exists>r. l = lit ''{noformat'' @ r) \<or> (\<exists>r. l = lit ''{code'' @ r)"

text \<open>
  What the renderer is to emit for the line at position \<open>n\<close>. A line is inside a block
  when the number of fence markers before it is odd. A fence marker gives the opening tag
  outside a block and the closing tag inside one; any other line gives its encoded text,
  followed by \<open><br>\<close> and a line feed outside a block and by a line feed alone inside
  one.
\<close>

definition rendered_line :: "(jsstring \<Rightarrow> jsstring) \<Rightarrow> jsstring list \<Rightarrow> nat \<Rightarrow> jsstring" where
  "rendered_line enc ls n =
     (if fence_marker (ls ! n)
      then (if even (length (filter fence_marker (take n ls)))
            then PRE_OPEN else PRE_CLOSE)
      else enc (ls ! n) @
           (if even (length (filter fence_marker (take n ls)))
            then lit ''<br>'' @ [LF] else [LF]))"

definition rendered_lines :: "(jsstring \<Rightarrow> jsstring) \<Rightarrow> jsstring list \<Rightarrow> jsstring" where
  "rendered_lines enc ls = concat (map (rendered_line enc ls) [0..<length ls])"

section \<open>Example values\<close>

definition example_config :: config where
  "example_config = \<lparr>label = lit ''public'', url_path = lit ''/rest/api/2''\<rparr>"

definition example_templates :: "jsstring \<rightharpoonup> jsstring" where
  "example_templates =
     [lit ''primary'' \<mapsto> lit ''<body>%%CONTAINER%%</body>'',
      lit ''issue_index'' \<mapsto> lit ''<table>%%TABLE_BODY%%</table>'']"

definition example_dates :: date_lib where
  "example_dates =
     \<lparr>date_parse = (\<lambda>s. if s = lit ''2014-01-01T00:00:00.000Z'' then Some 1388534400000
                         else if s = lit ''2014-01-02T00:00:00.000Z'' then Some 1388620800000
                         else None),
      date_iso = (\<lambda>ms. if ms = 1388534400000 then lit ''2014-01-01T00:00:00.000Z''
                        else lit ''2014-01-02T00:00:00.000Z'')\<rparr>"

definition example_fields :: issue_fields where
  "example_fields =
     \<lparr>summary = lit ''a bug'', labels = Some [lit ''public''], resolution = None,
      resolutiondate = None, fixVersions = None, description = None, comment = None\<rparr>"

definition example_issue :: issue where
  "example_issue = \<lparr>key = lit ''ABC-1'', ifields = Some example_fields\<rparr>"

definition jira_gives :: "issue jira_reply \<Rightarrow> jsstring \<Rightarrow> issue jira_reply" where
  "jira_gives r url = r"

definition private_issue :: issue where
  "private_issue =
     \<lparr>key = lit ''ABC-1'',
      ifields = Some (example_fields\<lparr>labels := Some [lit ''internal'', lit ''Public'']\<rparr>)\<rparr>"

definition accent_issue :: issue where
  "accent_issue =
     \<lparr>key = lit ''ABC-1'', ifields = Some (example_fields\<lparr>summary := [0xE9]\<rparr>)\<rparr>"



definition ann_comment :: comment where
  "ann_comment =
     \<lparr>displayName = lit ''<i>Ann</i>'', created = lit ''2014-01-01T00:00:00.000Z'',
      updated = Some (lit ''2014-01-01T00:00:00.000Z''), body = lit ''first''\<rparr>"

definition bob_comment :: comment where
  "bob_comment =
     \<lparr>displayName = lit ''Bob'', created = lit ''2014-01-01T00:00:00.000Z'',
      updated = Some (lit ''2014-01-02T00:00:00.000Z''), body = lit ''x<y''\<rparr>"

definition full_comments :: comment_block where
  "full_comments = \<lparr>total = 6, maxResults = 5, comments = [ann_comment, bob_comment]\<rparr>"

definition full_fields :: issue_fields where
  "full_fields =
     \<lparr>summary = lit ''<script>alert(1)</script>'', labels = Some [lit ''public''],
      resolution = Some \<lparr>res_name = lit ''Fixed'', res_description = lit ''A <b>fix</b>''\<rparr>,
      resolutiondate = Some (lit ''2014-01-02T00:00:00.000Z''),
      fixVersions = Some [\<lparr>fv_name = lit ''7.0'', releaseDate = None\<rparr>,
                          \<lparr>fv_name = lit ''7.1'',
                           releaseDate = Some (lit ''2014-02 <i>planned</i>'')\<rparr>],
      description = Some (lit ''a&b'' @ [CR, LF] @ lit ''<i>c</i>''),
      comment = Some full_comments\<rparr>"

definition full_issue :: issue where
  "full_issue = \<lparr>key = lit ''ABC-1'', ifields = Some full_fields\<rparr>"

definition dollar_comment :: comment where
  "dollar_comment =
     \<lparr>displayName = lit ''US$$ desk'', created = lit ''2014-01-01T00:00:00.000Z'',
      updated = None, body = lit ''costs $$5''\<rparr>"

definition dollar_issue :: issue where
  "dollar_issue =
     \<lparr>key = lit ''ABC-1'',
      ifields = Some (example_fields\<lparr>comment :=
        Some \<lparr>total = 6, maxResults = 5, comments = [dollar_comment]\<rparr>\<rparr>)\<rparr>"



definition plain_text :: jsstring where
  "plain_text = lit ''a'' @ [LF] @ lit ''<pre>'' @ [CR, LF] @ lit ''c''"

section \<open>Properties of the renderer\<close>

lemma starts_with_iff: "starts_with p s = (\<exists>r. s = p @ r)"
proof (induction p s rule: starts_with.induct)
  case (1 s)
  then show ?case by simp
next
  case (2 p ps)
  then show ?case by simp
next
  case (3 p ps c cs)
  then show ?case by auto
qed

text \<open>The test of the source is the test for a fence marker.\<close>

lemma is_fence_iff: "is_fence l = fence_marker l"
  by (simp add: is_fence_def fence_marker_def starts_with_iff)

subsection \<open>The lines of a text\<close>

text \<open>
  \<open>split\<close> gives back the lines of a text, whichever of the two line endings follows
  each of them; and every text has such lines.
\<close>

lemma split_one_line: "LF \<notin> set s \<Longrightarrow> split_lines s = [s]"
  by (induction s rule: split_lines.induct) auto

lemma split_ended_line:
  "LF \<notin> set l \<Longrightarrow> e = [CR, LF] \<or> e = [LF] \<and> (l = [] \<or> last l \<noteq> CR) \<Longrightarrow>
   split_lines (l @ e @ s) = l # split_lines s"
proof (induction l)
  case Nil
  then show ?case by (cases s) (auto simp: CR_def LF_def)
next
  case (Cons c l)
  from Cons.prems have c: "c \<noteq> LF" and l: "LF \<notin> set l" by auto
  from Cons.prems have e': "e = [CR, LF] \<or> e = [LF] \<and> (l = [] \<or> last l \<noteq> CR)"
    by (auto split: if_splits)
  obtain d cs where dcs: "l @ e @ s = d # cs"
    using Cons.prems(2) by (cases l) auto
  have no: "\<not> (c = CR \<and> d = LF)"
  proof
    assume cd: "c = CR \<and> d = LF"
    with l dcs have "l = []" by (cases l) auto
    with Cons.prems(2) cd dcs show False by (auto simp: CR_def LF_def)
  qed
  have "split_lines ((c # l) @ e @ s) = cons_hd c (split_lines (l @ e @ s))"
    using c no by (auto simp: dcs)
  also have "\<dots> = (c # l) # split_lines s"
    by (simp add: Cons.IH [OF l e'])
  finally show ?case .
qed

lemma split_lines_text:
  "list_all ended_line els \<Longrightarrow> LF \<notin> set final \<Longrightarrow>
   split_lines (lines_text els final) = map fst els @ [final]"
proof (induction els)
  case Nil
  then show ?case by (simp add: split_one_line)
next
  case (Cons a els)
  obtain l e where a: "a = (l, e)" by (cases a)
  from Cons.prems a have el: "ended_line (l, e)" and rest: "list_all ended_line els"
    by simp_all
  from el have "LF \<notin> set l"
    and "e = [CR, LF] \<or> e = [LF] \<and> (l = [] \<or> last l \<noteq> CR)"
    by (simp_all add: ended_line_def)
  with Cons.IH [OF rest Cons.prems(2)] show ?case
    by (simp add: a split_ended_line)
qed

lemma lines_unique:
  assumes "list_all ended_line els" and "LF \<notin> set final"
    and "list_all ended_line els'" and "LF \<notin> set final'"
    and "lines_text els final = lines_text els' final'"
  shows "map fst els @ [final] = map fst els' @ [final']"
proof -
  have "map fst els @ [final] = split_lines (lines_text els final)"
    by (simp add: split_lines_text [OF assms(1,2)])
  also have "\<dots> = split_lines (lines_text els' final')"
    by (simp only: assms(5))
  also have "\<dots> = map fst els' @ [final']"
    by (simp add: split_lines_text [OF assms(3,4)])
  finally show ?thesis .
qed

lemma text_has_lines:
  "\<exists>els final. desc = lines_text els final \<and> list_all ended_line els \<and> LF \<notin> set final"
proof (induction desc rule: split_lines.induct)
  case 1
  have "[] = lines_text [] []" by simp
  then show ?case by (intro exI [of _ "[]"]) simp
next
  case (2 c)
  show ?case
  proof (cases "c = LF")
    case True
    then have "[c] = lines_text [([], [LF])] [] \<and> list_all ended_line [([], [LF])] \<and> LF \<notin> set []"
      by (simp add: ended_line_def)
    then show ?thesis by blast
  next
    case False
    then have "[c] = lines_text [] [c] \<and> list_all ended_line [] \<and> LF \<notin> set [c]"
      by simp
    then show ?thesis by blast
  qed
next
  case (3 c d cs)
  show ?case
  proof (cases "c = LF")
    case True
    with 3(1) obtain els final where h: "d # cs = lines_text els final"
      "list_all ended_line els" "LF \<notin> set final" by blast
    with True have "c # d # cs = lines_text (([], [LF]) # els) final \<and>
        list_all ended_line (([], [LF]) # els) \<and> LF \<notin> set final"
      by (simp add: ended_line_def)
    then show ?thesis by blast
  next
    case nLF: False
    show ?thesis
    proof (cases "c = CR \<and> d = LF")
      case True
      with nLF 3(2) obtain els final where h: "cs = lines_text els final"
        "list_all ended_line els" "LF \<notin> set final" by blast
      with True have "c # d # cs = lines_text (([], [CR, LF]) # els) final \<and>
          list_all ended_line (([], [CR, LF]) # els) \<and> LF \<notin> set final"
        by (simp add: ended_line_def)
      then show ?thesis by blast
    next
      case False
      with nLF 3(3) obtain els final where h: "d # cs = lines_text els final"
        "list_all ended_line els" "LF \<notin> set final" by blast
      show ?thesis
      proof (cases els)
        case Nil
        with h nLF have "c # d # cs = lines_text [] (c # final) \<and>
            list_all ended_line [] \<and> LF \<notin> set (c # final)"
          by simp
        then show ?thesis by blast
      next
        case (Cons a rest)
        obtain l e where a: "a = (l, e)" by (cases a)
        from h(2) Cons a have el: "ended_line (l, e)" and rest: "list_all ended_line rest"
          by simp_all
        have "ended_line (c # l, e)"
        proof (cases l)
          case Nil
          with h(1) Cons a el have "e = [CR, LF] \<or> (e = [LF] \<and> d = LF)"
            by (auto simp: ended_line_def)
          with False nLF Nil show ?thesis by (auto simp: ended_line_def)
        next
          case (Cons x xs)
          with el nLF show ?thesis by (auto simp: ended_line_def)
        qed
        with h Cons a rest have "c # d # cs = lines_text ((c # l, e) # rest) final \<and>
            list_all ended_line ((c # l, e) # rest) \<and> LF \<notin> set final"
          by simp
        then show ?thesis by blast
      qed
    qed
  qed
qed

subsection \<open>The loop\<close>

lemma fm_loop_frags: "fm_loop enc lines fmton out = out @ concat (fm_frags enc lines fmton)"
  by (induction lines arbitrary: fmton out) simp_all

lemma length_fm_frags: "length (fm_frags enc lines fmton) = length lines"
  by (induction lines arbitrary: fmton) simp_all

lemma text_scan_ent_char: "text_scan InText (ent_char c @ r) = text_scan InText r"
  by (simp add: ent_char_def lit_def markup_char_def entity_char_def)

lemma text_only_ent_encode: "text_only (ent_encode s)"
  unfolding text_only_def ent_encode_def
  by (induction s) (simp_all add: text_scan_ent_char)

lemma escapes_ent_encode: "escapes ent_encode"
  by (simp add: escapes_def text_only_ent_encode)

lemma cons_hd_length: "ls \<noteq> [] \<Longrightarrow> length (cons_hd c ls) = length ls"
  by (cases ls) simp_all

lemma split_lines_nonempty: "split_lines s \<noteq> []"
  by (induction s rule: split_lines.induct) (auto simp: neq_Nil_conv elim: cons_hd.elims)

lemma length_split_lines: "length (split_lines s) = Suc (length (filter (\<lambda>c. c = LF) s))"
  by (induction s rule: split_lines.induct)
     (auto simp: cons_hd_length split_lines_nonempty CR_def LF_def)

lemma set_cons_hd: "l \<in> set (cons_hd c ls) \<Longrightarrow> l \<in> set ls \<or> (\<exists>l'. l = c # l' \<and> (l' \<in> set ls \<or> l' = []))"
  by (cases ls) auto

lemma lines_no_LF: "l \<in> set (split_lines s) \<Longrightarrow> LF \<notin> set l"
proof (induction s arbitrary: l rule: split_lines.induct)
  case 1
  then show ?case by simp
next
  case (2 c)
  then show ?case by (auto split: if_splits)
next
  case (3 c d cs)
  then show ?case
    by (auto split: if_splits dest!: set_cons_hd)
qed

lemma text_scan_no_markup: "text_scan st s \<Longrightarrow> c \<in> set s \<Longrightarrow> \<not> markup_char c"
proof (induction s arbitrary: st)
  case Nil
  then show ?case by simp
next
  case (Cons a s)
  show ?case
  proof (cases st)
    case InText
    with Cons show ?thesis by (auto split: if_splits)
  next
    case AfterAmp
    with Cons show ?thesis by (auto simp: entity_char_def markup_char_def)
  next
    case InEntity
    with Cons show ?thesis by (auto simp: entity_char_def markup_char_def split: if_splits)
  qed
qed

lemma text_only_no_markup: "text_only s \<Longrightarrow> c \<in> set s \<Longrightarrow> \<not> markup_char c"
  unfolding text_only_def by (rule text_scan_no_markup)

lemma fm_frags_plain:
  "\<forall>l \<in> set ls. \<not> is_fence l \<Longrightarrow>
   fm_frags enc ls fmton = map (\<lambda>l. enc l @ (if fmton then NL else BR)) ls"
  by (induction ls) simp_all



lemma fmton_after_parity:
  "fmton_after fmton ls = (fmton \<noteq> odd (length (filter is_fence ls)))"
  by (induction ls arbitrary: fmton) auto

lemma occurs_skip:
  "p \<noteq> [] \<Longrightarrow> hd p \<notin> set t \<Longrightarrow> occurs p (t @ r) = occurs p r"
  by (induction t) (auto simp: neq_Nil_conv)

lemma occurs_pre_BR: "occurs (lit ''<pre'') (BR @ r) = occurs (lit ''<pre'') r"
  by (cases r) (simp_all add: lit_def BR_def LF_def)

lemma fm_frags_nth:
  "n < length ls \<Longrightarrow>
   fm_frags enc ls fmton ! n =
     (if is_fence (ls ! n) then (if fmton_after fmton (take n ls) then PRE_CLOSE else PRE_OPEN)
      else enc (ls ! n) @ (if fmton_after fmton (take n ls) then NL else BR))"
proof (induction ls arbitrary: n fmton)
  case Nil
  then show ?case by simp
next
  case (Cons l ls)
  then show ?case by (cases n) simp_all
qed

lemma format_markup_frags: "format_markup enc desc = concat (fm_frags enc (split_lines desc) False)"
  by (simp add: format_markup_def fm_loop_frags)

lemma fm_frags_nonempty: "ls \<noteq> [] \<Longrightarrow> concat (fm_frags enc ls b) \<noteq> []"
  by (cases ls) (simp_all add: PRE_OPEN_def PRE_CLOSE_def BR_def NL_def)

lemma format_markup_nonempty: "format_markup enc desc \<noteq> []"
  unfolding format_markup_frags by (rule fm_frags_nonempty [OF split_lines_nonempty])

text \<open>The loop emits, for each line, what the specification asks for.\<close>

lemma fm_frags_rendered: "concat (fm_frags enc ls False) = rendered_lines enc ls"
proof -
  have "fm_frags enc ls False = map (rendered_line enc ls) [0..<length ls]"
  proof (rule nth_equalityI)
    show "length (fm_frags enc ls False) = length (map (rendered_line enc ls) [0..<length ls])"
      by (simp add: length_fm_frags)
  next
    fix n
    assume "n < length (fm_frags enc ls False)"
    then have n: "n < length ls" by (simp add: length_fm_frags)
    then show "fm_frags enc ls False ! n = map (rendered_line enc ls) [0..<length ls] ! n"
      by (simp add: fm_frags_nth fmton_after_parity rendered_line_def is_fence_iff BR_def NL_def
          cong: filter_cong)
  qed
  then show ?thesis by (simp add: rendered_lines_def)
qed

lemma format_markup_rendered:
  "list_all ended_line els \<Longrightarrow> LF \<notin> set final \<Longrightarrow>
   format_markup enc (lines_text els final) = rendered_lines enc (map fst els @ [final])"
  by (simp add: format_markup_frags split_lines_text fm_frags_rendered)

lemma plain_no_pre:
  assumes "escapes enc"
  shows "\<not> occurs (lit ''<pre'') (concat (map (\<lambda>l. enc l @ BR) ls))"
proof (induction ls)
  case Nil
  show ?case by (simp add: lit_def)
next
  case (Cons l ls)
  have "text_only (enc l)" using assms by (simp add: escapes_def)
  then have "hd (lit ''<pre'') \<notin> set (enc l)"
    using text_only_no_markup [of "enc l" "0x3C"] by (auto simp: lit_def markup_char_def)
  moreover have "lit ''<pre'' \<noteq> []" by (simp add: lit_def)
  ultimately have "occurs (lit ''<pre'') (enc l @ BR @ concat (map (\<lambda>l. enc l @ BR) ls)) =
      occurs (lit ''<pre'') (BR @ concat (map (\<lambda>l. enc l @ BR) ls))"
    by (rule occurs_skip [rotated])
  with Cons show ?case by (simp add: occurs_pre_BR)
qed

text \<open>Outside a block, \<open><pre\<close> can only come out of the encoder.\<close>

lemma plain_no_pre_lines:
  assumes "\<forall>l \<in> set ls. 0x3C \<notin> set (enc l)"
  shows "\<not> occurs (lit ''<pre'') (concat (map (\<lambda>l. enc l @ BR) ls))"
  using assms
proof (induction ls)
  case Nil
  show ?case by (simp add: lit_def)
next
  case (Cons l ls)
  then have "hd (lit ''<pre'') \<notin> set (enc l)" by (simp add: lit_def)
  moreover have "lit ''<pre'' \<noteq> []" by (simp add: lit_def)
  ultimately have "occurs (lit ''<pre'') (enc l @ BR @ concat (map (\<lambda>l. enc l @ BR) ls)) =
      occurs (lit ''<pre'') (BR @ concat (map (\<lambda>l. enc l @ BR) ls))"
    by (rule occurs_skip [rotated])
  with Cons show ?case by (simp add: occurs_pre_BR)
qed


subsection \<open>Escaping of the lines\<close>

text \<open>
  part_001: the output is one fragment for each line, in order. The fragment of a fence
  marker is one of the two tags; the fragment of any other line is the encoded line
  followed by \<open><br>\<close> and a line feed, or by a line feed alone. When the encoder escapes,
  the encoded line is character data.
\<close>

lemma lines_escaped:
  assumes "escapes enc"
  shows "\<exists>frags. format_markup enc desc = concat frags \<and>
           length frags = length (split_lines desc) \<and>
           (\<forall>n < length frags.
              (is_fence (split_lines desc ! n) \<longrightarrow>
                 frags ! n = PRE_OPEN \<or> frags ! n = PRE_CLOSE) \<and>
              (\<not> is_fence (split_lines desc ! n) \<longrightarrow>
                 (frags ! n = enc (split_lines desc ! n) @ lit ''<br>'' @ [LF] \<or>
                  frags ! n = enc (split_lines desc ! n) @ [LF]) \<and>
                 text_only (enc (split_lines desc ! n))))"
proof (intro exI conjI allI impI)
  show "format_markup enc desc = concat (fm_frags enc (split_lines desc) False)"
    by (rule format_markup_frags)
  show "length (fm_frags enc (split_lines desc) False) = length (split_lines desc)"
    by (rule length_fm_frags)
next
  fix n
  assume n: "n < length (fm_frags enc (split_lines desc) False)"
  then have n': "n < length (split_lines desc)" by (simp add: length_fm_frags)
  {
    assume "is_fence (split_lines desc ! n)"
    then show "fm_frags enc (split_lines desc) False ! n = PRE_OPEN \<or>
               fm_frags enc (split_lines desc) False ! n = PRE_CLOSE"
      using n' by (simp add: fm_frags_nth)
  }
  {
    assume "\<not> is_fence (split_lines desc ! n)"
    then show "fm_frags enc (split_lines desc) False ! n =
                 enc (split_lines desc ! n) @ lit ''<br>'' @ [LF] \<or>
               fm_frags enc (split_lines desc) False ! n = enc (split_lines desc ! n) @ [LF]"
      using n' by (simp add: fm_frags_nth BR_def NL_def)
    show "text_only (enc (split_lines desc ! n))"
      using assms by (simp add: escapes_def)
  }
qed

text \<open>The renderer of jirapub.js is the one of part_001 without the encoder.\<close>

lemma format_markup_jirapub_eq: "format_markup_jirapub desc = format_markup (\<lambda>line. line) desc"
  by (simp add: format_markup_jirapub_def format_markup_def)

lemma script_line_escaped:
  "format_markup ent_encode (lit ''<script>alert(1)</script>'') =
     lit ''&lt;script&gt;alert(1)&lt;/script&gt;<br>'' @ [LF]"
  by (simp add: format_markup_def is_fence_def ent_encode_def ent_char_def lit_def BR_def LF_def)

text \<open>
  C2. Every line that is not a fence marker is to be emitted HTML-escaped. The
  \<open>format_markup\<close> of jirapub.js and of part_000 append the line as it is: a line
  \<open><script>alert(1)</script>\<close> reaches the page unchanged, where part_001 gives
  \<open>&lt;script&gt;alert(1)&lt;/script&gt;\<close>.
\<close>

theorem older_variants_emit_raw_lines:
  "format_markup_jirapub (lit ''<script>alert(1)</script>'') =
     lit ''<script>alert(1)</script><br>'' @ [LF] \<and>
   format_markup_part0 (lit ''<script>alert(1)</script>'') =
     lit ''<script>alert(1)</script><br>'' @ [LF] \<and>
   \<not> text_only (lit ''<script>alert(1)</script>'')"
  by (simp add: format_markup_jirapub_def format_markup_part0_def is_fence_def lit_def BR_def
      LF_def CR_def text_only_def markup_char_def)

subsection \<open>Fenced blocks\<close>





subsection \<open>Input without fence markers\<close>

text \<open>
  C6, as the claim states it, fails at the empty string: \<open>''.split(/\r?\n/)\<close> is \<open>['']\<close>,
  one empty line, and the loop emits \<open><br>\<close> and a line feed for it. All three variants
  do so.
\<close>

theorem empty_string_one_line:
  "format_markup ent_encode [] = lit ''<br>'' @ [LF] \<and>
   format_markup ent_encode [] \<noteq> [] \<and>
   format_markup_jirapub [] = lit ''<br>'' @ [LF] \<and>
   format_markup_part0 [] = lit ''<br>'' @ [LF]"
  by (simp add: format_markup_def format_markup_jirapub_def format_markup_part0_def
      is_fence_def ent_encode_def lit_def BR_def)

text \<open>
  C6, amended. \<open>format_markup\<close> is a total function, and its output is never empty:
  for the empty string it is one empty line, \<open><br>\<close> and a line feed (an encoder gives
  the empty string for the empty string). Every text is the text of some lines, each line
  but the last followed by a line feed or by a carriage return and a line feed. When none
  of these lines is a fence marker, the output is each line, encoded, followed by \<open><br>\<close>
  and a line feed, in the order of the input: one for each line of the input, whichever
  of the two line endings follows it. \<open><pre\<close> occurs in the output only when some
  encoded line holds \<open><\<close>: never with an encoder that escapes.
\<close>

theorem plain_text_lines:
  "format_markup enc desc \<noteq> [] \<and>
   (enc [] = [] \<longrightarrow> format_markup enc [] = lit ''<br>'' @ [LF]) \<and>
   (\<exists>els final. desc = lines_text els final \<and> list_all ended_line els \<and> LF \<notin> set final) \<and>
   (\<forall>els final.
      desc = lines_text els final \<and> list_all ended_line els \<and> LF \<notin> set final \<and>
      (\<forall>l \<in> set (map fst els @ [final]). \<not> fence_marker l) \<longrightarrow>
      format_markup enc desc =
        concat (map (\<lambda>l. enc l @ lit ''<br>'' @ [LF]) (map fst els @ [final])) \<and>
      ((\<forall>l \<in> set (map fst els @ [final]). 0x3C \<notin> set (enc l)) \<longrightarrow>
         \<not> occurs (lit ''<pre'') (format_markup enc desc)) \<and>
      (escapes enc \<longrightarrow> \<not> occurs (lit ''<pre'') (format_markup enc desc)))"
proof (intro conjI allI impI)
  show "format_markup enc desc \<noteq> []"
    by (rule format_markup_nonempty)
  show "format_markup enc [] = lit ''<br>'' @ [LF]" if "enc [] = []"
    using that by (simp add: format_markup_def is_fence_def lit_def BR_def)
  show "\<exists>els final. desc = lines_text els final \<and> list_all ended_line els \<and> LF \<notin> set final"
    by (rule text_has_lines)
next
  fix els final
  assume h: "desc = lines_text els final \<and> list_all ended_line els \<and> LF \<notin> set final \<and>
      (\<forall>l \<in> set (map fst els @ [final]). \<not> fence_marker l)"
  then have sp: "split_lines desc = map fst els @ [final]"
    by (simp add: split_lines_text)
  from h have nf: "\<forall>l \<in> set (map fst els @ [final]). \<not> is_fence l"
    by (simp add: is_fence_iff)
  have fr: "fm_frags enc (map fst els @ [final]) False =
      map (\<lambda>l. enc l @ BR) (map fst els @ [final])"
    using fm_frags_plain [OF nf, of enc False] by simp
  show eq: "format_markup enc desc =
      concat (map (\<lambda>l. enc l @ lit ''<br>'' @ [LF]) (map fst els @ [final]))"
    by (simp only: format_markup_frags sp fr BR_def append_assoc)
  show "\<not> occurs (lit ''<pre'') (format_markup enc desc)"
    if "\<forall>l \<in> set (map fst els @ [final]). 0x3C \<notin> set (enc l)"
    unfolding format_markup_frags sp fr by (rule plain_no_pre_lines [OF that])
  show "\<not> occurs (lit ''<pre'') (format_markup enc desc)" if "escapes enc"
    unfolding format_markup_frags sp fr by (rule plain_no_pre [OF that])
qed

theorem plain_text_lines_witness:
  "format_markup ent_encode (lit ''a'' @ [LF] @ lit ''<pre>'' @ [CR, LF] @ lit ''c'') =
     lit ''a<br>'' @ [LF] @ lit ''&lt;pre&gt;<br>'' @ [LF] @ lit ''c<br>'' @ [LF] \<and>
   \<not> occurs (lit ''<pre'')
       (format_markup ent_encode (lit ''a'' @ [LF] @ lit ''<pre>'' @ [CR, LF] @ lit ''c'')) \<and>
   format_markup ent_encode [] = lit ''<br>'' @ [LF]"
proof -
  let ?t = "lit ''a'' @ [LF] @ lit ''<pre>'' @ [CR, LF] @ lit ''c''"
  let ?els = "[(lit ''a'', [LF]), (lit ''<pre>'', [CR, LF])]"
  have tx: "?t = lines_text ?els (lit ''c'')"
    by simp
  have el: "list_all ended_line ?els"
    by (simp add: ended_line_def lit_def LF_def CR_def)
  have fin: "LF \<notin> set (lit ''c'')"
    by (simp add: lit_def LF_def)
  have nf: "\<forall>l \<in> set (map fst ?els @ [lit ''c'']). \<not> fence_marker l"
    by (simp add: is_fence_iff [symmetric] is_fence_def lit_def)
  note t = plain_text_lines [of ent_encode ?t]
  note u = t [THEN conjunct2, THEN conjunct2, THEN conjunct2, rule_format,
      OF conjI [OF tx conjI [OF el conjI [OF fin nf]]]]
  from u have "format_markup ent_encode ?t =
      concat (map (\<lambda>l. ent_encode l @ lit ''<br>'' @ [LF]) (map fst ?els @ [lit ''c'']))"
    by (rule conjunct1)
  then have eq: "format_markup ent_encode ?t =
     lit ''a<br>'' @ [LF] @ lit ''&lt;pre&gt;<br>'' @ [LF] @ lit ''c<br>'' @ [LF]"
    by (simp add: ent_encode_def ent_char_def lit_def)
  from u have "escapes ent_encode \<longrightarrow> \<not> occurs (lit ''<pre'') (format_markup ent_encode ?t)"
    by (elim conjE)
  from this escapes_ent_encode
  have no: "\<not> occurs (lit ''<pre'') (format_markup ent_encode ?t)"
    by (rule mp)
  have e0: "ent_encode [] = []"
    by (simp add: ent_encode_def)
  from t [THEN conjunct2, THEN conjunct1] e0
  have em: "format_markup ent_encode [] = lit ''<br>'' @ [LF]"
    by (rule mp)
  from eq no em show ?thesis
    by (intro conjI)
qed

text \<open>
  The older variants differ on two further points: part_000 does not split at a bare line
  feed, and without the encoder a line that holds \<open><pre>\<close> puts it into the output.
\<close>

lemma older_variants_plain_text:
  "format_markup_part0 (lit ''a'' @ [LF] @ lit ''b'') = lit ''a'' @ [LF] @ lit ''b<br>'' @ [LF] \<and>
   format_markup_jirapub (lit ''a'' @ [LF] @ lit ''b'') = lit ''a<br>'' @ [LF] @ lit ''b<br>'' @ [LF] \<and>
   occurs (lit ''<pre'') (format_markup_jirapub plain_text)"
  by (simp add: format_markup_part0_def format_markup_jirapub_def plain_text_def is_fence_def
      lit_def BR_def LF_def CR_def)

section \<open>Properties of the composer\<close>

lemma toISOString_ok:
  "new_Date D v \<noteq> None \<Longrightarrow> toISOString D (new_Date D v) = Inr (iso_opt D v)"
  by (auto simp: toISOString_def iso_opt_def)

lemma resolution_step_ok:
  "resolution f \<noteq> None \<longrightarrow> new_Date D (resolutiondate f) \<noteq> None \<Longrightarrow>
   resolution_step D f out = Inr (out @ resolution_html D f)"
  by (cases "resolution f") (simp_all add: resolution_step_def resolution_html_def toISOString_ok)

lemma fix_loop_closed: "fix_loop fvs out = out @ concat (map fixversion_html fvs)"
  by (induction fvs arbitrary: out) (simp_all add: fixversion_html_def)

lemma fix_step_closed: "fix_step f out = out @ fixversions_html f"
  by (cases "fixVersions f") (simp_all add: fix_step_def fixversions_html_def fix_loop_closed)

lemma desc_step_closed: "desc_step markup f out = out @ description_html markup f"
  by (cases "description f") (simp_all add: desc_step_def description_html_def)

lemma updated_line_ok:
  "shows_updated com \<longrightarrow> new_Date D (updated com) \<noteq> None \<Longrightarrow>
   updated_line D com out =
     Inr (out @ (if shows_updated com
                 then lit ''Updated at '' @ iso_opt D (updated com) @ lit ''<br>'' @ [LF] else []))"
  by (cases "updated com") (auto simp: updated_line_def shows_updated_def toISOString_ok)

lemma enumerate_shift:
  "map (\<lambda>(n, x). g n x) (enumerate (Suc k) xs) = map (\<lambda>(n, x). g (Suc n) x) (enumerate k xs)"
  by (induction xs arbitrary: k) simp_all

lemma comment_loop_closed:
  "list_all (comment_dates_ok D) coms \<Longrightarrow>
   comment_loop D markup coms dark out =
     Inr (out @ concat (map (\<lambda>(n, com). comment_html D markup (dark \<noteq> odd n) com)
                          (enumerate 0 coms)))"
proof (induction coms arbitrary: dark out)
  case Nil
  then show ?case by simp
next
  case (Cons com coms)
  then have ok: "comment_dates_ok D com" and rest: "list_all (comment_dates_ok D) coms"
    by simp_all
  from ok have c: "new_Date D (Some (created com)) \<noteq> None"
    and u: "shows_updated com \<longrightarrow> new_Date D (updated com) \<noteq> None"
    by (simp_all add: comment_dates_ok_def)
  have shift: "map (\<lambda>(n, com). comment_html D markup (dark \<noteq> odd n) com) (enumerate (Suc 0) coms) =
               map (\<lambda>(n, com). comment_html D markup ((\<not> dark) \<noteq> odd n) com) (enumerate 0 coms)"
    using enumerate_shift [of "\<lambda>n com. comment_html D markup (dark \<noteq> odd n) com" 0 coms]
    by simp
  show ?case
    using Cons.IH [OF rest, of "\<not> dark"] shift
    by (simp add: toISOString_ok [OF c] updated_line_ok [OF u] comment_html_def)
qed

lemma comment_step_closed:
  assumes "case comment f of None \<Rightarrow> True | Some c \<Rightarrow> list_all (comment_dates_ok D) (comments c)"
  shows "comment_step D markup f out = (warnings f, Inr (out @ comments_html D markup f))"
proof (cases "comment f")
  case None
  then show ?thesis by (simp add: comment_step_def warnings_def comments_html_def)
next
  case (Some c)
  with assms have "list_all (comment_dates_ok D) (comments c)" by simp
  from comment_loop_closed [OF this, of markup False] Some show ?thesis
    by (simp add: comment_step_def warnings_def comments_html_def)
qed

lemma format_issue_closed:
  assumes "ifields i = Some f" and "dates_ok D f"
  shows "format_issue D markup i =
    (warnings f,
     Inr (lit ''<h1>'' @ key i @ lit '': '' @ summary f @ lit ''</h1>'' @ [LF] @
          resolution_html D f @ fixversions_html f @ description_html markup f @
          comments_html D markup f))"
proof -
  from assms(2) have r: "resolution f \<noteq> None \<longrightarrow> new_Date D (resolutiondate f) \<noteq> None"
    and c: "case comment f of None \<Rightarrow> True | Some c \<Rightarrow> list_all (comment_dates_ok D) (comments c)"
    by (simp_all add: dates_ok_def)
  show ?thesis
    by (simp add: format_issue_def assms(1) resolution_step_ok [OF r] fix_step_closed
        desc_step_closed comment_step_closed [OF c])
qed

lemma starts_with_append: "starts_with p (p @ r)"
  by (induction p) simp_all

lemma full_dates_ok: "dates_ok example_dates full_fields"
  by (simp add: dates_ok_def full_fields_def full_comments_def comment_dates_ok_def ann_comment_def
      bob_comment_def shows_updated_def new_Date_def example_dates_def lit_def)

subsection \<open>Sections of the page\<close>



lemma ifields_full_issue: "ifields full_issue = Some full_fields"
  by (simp add: full_issue_def)


subsection \<open>Fields that reach the page as they are\<close>

text \<open>A string occurs in another exactly when it is a part of it.\<close>

lemma occurs_iff: "occurs x s = (\<exists>a b. s = a @ x @ b)"
proof (induction s)
  case Nil
  then show ?case by auto
next
  case (Cons c cs)
  show ?case
  proof
    assume "occurs x (c # cs)"
    then consider "starts_with x (c # cs)" | "occurs x cs" by auto
    then show "\<exists>a b. c # cs = a @ x @ b"
    proof cases
      case 1
      then obtain r where "c # cs = x @ r" by (auto simp: starts_with_iff)
      then have "c # cs = [] @ x @ r" by simp
      then show ?thesis by blast
    next
      case 2
      with Cons obtain a b where "cs = a @ x @ b" by auto
      then have "c # cs = (c # a) @ x @ b" by simp
      then show ?thesis by blast
    qed
  next
    assume "\<exists>a b. c # cs = a @ x @ b"
    then obtain a b where ab: "c # cs = a @ x @ b" by blast
    show "occurs x (c # cs)"
    proof (cases a)
      case Nil
      with ab have "starts_with x (c # cs)" by (auto simp: starts_with_iff)
      then show ?thesis by simp
    next
      case (Cons a0 as)
      with ab have "cs = as @ x @ b" by simp
      with Cons.IH show ?thesis by auto
    qed
  qed
qed

lemma occurs_mid: "occurs x (a @ x @ b)"
  by (auto simp: occurs_iff)

lemma occurs_within: "occurs x s \<Longrightarrow> occurs x (a @ s @ b)"
proof -
  assume "occurs x s"
  then obtain a' b' where "s = a' @ x @ b'" by (auto simp: occurs_iff)
  then have "a @ s @ b = (a @ a') @ x @ (b' @ b)" by simp
  then show ?thesis unfolding occurs_iff by blast
qed

lemma occurs_concat_map: "y \<in> set ys \<Longrightarrow> occurs x (g y) \<Longrightarrow> occurs x (concat (map g ys))"
proof -
  assume "y \<in> set ys" and x: "occurs x (g y)"
  then obtain us vs where "ys = us @ y # vs" by (auto dest: split_list)
  then have "concat (map g ys) = concat (map g us) @ g y @ concat (map g vs)" by simp
  with occurs_within [OF x] show ?thesis by simp
qed

lemma in_enumerate: "y \<in> set ys \<Longrightarrow> \<exists>n. (n, y) \<in> set (enumerate 0 ys)"
proof -
  assume "y \<in> set ys"
  then obtain n where "n < length ys" "ys ! n = y" by (auto simp: in_set_conv_nth)
  then have "(n, y) \<in> set (enumerate 0 ys)" by (simp add: in_set_enumerate_eq)
  then show ?thesis ..
qed

lemma occurs_resolution:
  assumes "resolution f = Some r"
  shows "occurs (lit ''<p><b>'' @ res_name r @ lit '':</b> '' @ res_description r @ lit ''<br>'')
           (resolution_html D f)"
proof -
  have "resolution_html D f =
      (lit ''<h2>Resolution</h2>'' @ [LF]) @
      (lit ''<p><b>'' @ res_name r @ lit '':</b> '' @ res_description r @ lit ''<br>'') @
      ([LF] @ lit ''(Resolution Date: '' @ iso_opt D (resolutiondate f) @ lit '')</p>'' @ [LF])"
    by (simp add: resolution_html_def assms)
  then show ?thesis by (simp only: occurs_mid)
qed

lemma occurs_fixversion:
  assumes "fixVersions f = Some fvs" and "fv \<in> set fvs"
  shows "occurs (lit ''<p><b>'' @ fv_name fv @ lit ''</b> (Release Date: '' @
                 js_str (releaseDate fv) @ lit '')</p>'') (fixversions_html f)"
proof -
  let ?x = "lit ''<p><b>'' @ fv_name fv @ lit ''</b> (Release Date: '' @
            js_str (releaseDate fv) @ lit '')</p>''"
  have "fixversion_html fv = [] @ ?x @ [LF]"
    by (simp add: fixversion_html_def)
  then have "occurs ?x (fixversion_html fv)" by (simp only: occurs_mid)
  then have "occurs ?x (concat (map fixversion_html fvs))"
    by (rule occurs_concat_map [OF assms(2)])
  then have "occurs ?x ((lit ''<h2>Fix Versions</h2>'' @ [LF]) @
      concat (map fixversion_html fvs) @ [])"
    by (rule occurs_within)
  moreover have "fvs \<noteq> []" using assms(2) by auto
  ultimately show ?thesis by (simp add: fixversions_html_def assms(1))
qed

lemma occurs_description:
  assumes "description f = Some d" and "d \<noteq> []"
  shows "occurs (lit ''<div>'' @ markup d @ lit ''</div>'') (description_html markup f)"
proof -
  have "description_html markup f =
      (lit ''<h2>Description</h2>'' @ [LF]) @ (lit ''<div>'' @ markup d @ lit ''</div>'') @ [LF]"
    by (simp add: description_html_def assms)
  then show ?thesis by (simp only: occurs_mid)
qed

lemma occurs_author: "occurs (lit ''Comment by '' @ displayName com @ lit ''<br>'')
    (comment_html D markup dark com)"
proof -
  have "comment_html D markup dark com =
      (lit ''<div style=\"background-color: '' @
         (if dark then lit ''#DDDDDD'' else lit ''#EEEEEE'') @ lit '';\">'' @ [LF] @ lit ''<b>'') @
      (lit ''Comment by '' @ displayName com @ lit ''<br>'') @
      ([LF] @ lit ''Created at '' @ iso_opt D (Some (created com)) @ lit ''<br>'' @ [LF] @
         (if shows_updated com
          then lit ''Updated at '' @ iso_opt D (updated com) @ lit ''<br>'' @ [LF] else []) @
         lit ''</b>'' @ markup (body com) @ lit ''</div><br>'' @ [LF])"
    by (simp add: comment_html_def)
  then show ?thesis by (simp only: occurs_mid)
qed

lemma occurs_body: "occurs (lit ''</b>'' @ markup (body com) @ lit ''</div><br>'')
    (comment_html D markup dark com)"
proof -
  have "comment_html D markup dark com =
      (lit ''<div style=\"background-color: '' @
         (if dark then lit ''#DDDDDD'' else lit ''#EEEEEE'') @ lit '';\">'' @ [LF] @ lit ''<b>'' @
         lit ''Comment by '' @ displayName com @ lit ''<br>'' @ [LF] @
         lit ''Created at '' @ iso_opt D (Some (created com)) @ lit ''<br>'' @ [LF] @
         (if shows_updated com
          then lit ''Updated at '' @ iso_opt D (updated com) @ lit ''<br>'' @ [LF] else [])) @
      (lit ''</b>'' @ markup (body com) @ lit ''</div><br>'') @ [LF]"
    by (simp add: comment_html_def)
  then show ?thesis by (simp only: occurs_mid)
qed

lemma occurs_comments:
  assumes "comment f = Some c" and "com \<in> set (comments c)"
    and "\<And>dark. occurs x (comment_html D markup dark com)"
  shows "occurs x (comments_html D markup f)"
proof -
  from in_enumerate [OF assms(2)] obtain n
    where n: "(n, com) \<in> set (enumerate 0 (comments c))" ..
  let ?g = "\<lambda>(n, com). comment_html D markup (odd n) com"
  have "occurs x (?g (n, com))" using assms(3) by simp
  with n have "occurs x (concat (map ?g (enumerate 0 (comments c))))"
    by (rule occurs_concat_map [where g = ?g and y = "(n, com)"])
  then have "occurs x ((lit ''<h2>Comments</h2>'' @ [LF]) @
      concat (map ?g (enumerate 0 (comments c))) @ [])"
    by (rule occurs_within)
  then show ?thesis by (simp add: comments_html_def assms(1))
qed

lemma tbody_loop_closed:
  "list_all (\<lambda>j. ifields j \<noteq> None) js \<Longrightarrow>
   tbody_loop js tbody = Inr (tbody @ concat (map index_row js))"
  by (induction js arbitrary: tbody) (auto simp: index_row_def)

lemma occurs_index_row:
  assumes "ifields j = Some f"
  shows "occurs (lit ''<tr><td><a href=\"'' @ key j @ lit ''\">'' @ key j @
                 lit ''</a></td><td>'' @ summary f @ lit ''</td></tr>'') (index_row j)"
proof -
  have "index_row j =
      [] @ (lit ''<tr><td><a href=\"'' @ key j @ lit ''\">'' @ key j @
            lit ''</a></td><td>'' @ summary f @ lit ''</td></tr>'') @ [LF]"
    by (simp add: index_row_def assms)
  then show ?thesis by (simp only: occurs_mid)
qed

lemma occurs_release_date:
  assumes "fixVersions f = Some fvs" and "fv \<in> set fvs" and "releaseDate fv = Some rd"
  shows "occurs (lit ''<p><b>'' @ fv_name fv @ lit ''</b> (Release Date: '' @ rd @ lit '')</p>'')
           (fixversions_html f)"
  using occurs_fixversion [OF assms(1,2)] by (simp add: js_str_def assms(3))

lemma occurs_no_release_date:
  assumes "fixVersions f = Some fvs" and "fv \<in> set fvs" and "releaseDate fv = None"
  shows "occurs (lit ''<p><b>'' @ fv_name fv @ lit ''</b> (Release Date: undefined)</p>'')
           (fixversions_html f)"
  using occurs_fixversion [OF assms(1,2)] by (simp add: js_str_def assms(3) lit_def)

text \<open>
  C10. When no date fails, the page fragment starts with the heading that holds the key
  and the summary as they are; the resolution's name and description, each fix version's
  name and its release date (the text \<open>undefined\<close> when there is none), and each
  comment's author display name occur in it as they are, between the tags the composer
  writes around them. The description and each comment body occur rendered: for the lines
  of the text, what the renderer is to emit for them, every line that is not a fence
  marker in its encoded form; and every text has lines. In the table body of the index,
  the key and the summary of each issue occur as they are.
\<close>

theorem fields_embedded_raw:
  assumes "ifields i = Some f" and "dates_ok D f"
  shows "(\<exists>page.
            snd (format_issue D (format_markup enc) i) = Inr page \<and>
            starts_with (lit ''<h1>'' @ key i @ lit '': '' @ summary f @ lit ''</h1>'') page \<and>
            (\<forall>r. resolution f = Some r \<longrightarrow>
               occurs (lit ''<p><b>'' @ res_name r @ lit '':</b> '' @ res_description r @
                       lit ''<br>'') page) \<and>
            (\<forall>fvs fv. fixVersions f = Some fvs \<and> fv \<in> set fvs \<longrightarrow>
               (\<forall>rd. releaseDate fv = Some rd \<longrightarrow>
                  occurs (lit ''<p><b>'' @ fv_name fv @ lit ''</b> (Release Date: '' @ rd @
                          lit '')</p>'') page) \<and>
               (releaseDate fv = None \<longrightarrow>
                  occurs (lit ''<p><b>'' @ fv_name fv @
                          lit ''</b> (Release Date: undefined)</p>'') page)) \<and>
            (\<forall>els final.
               description f = Some (lines_text els final) \<and> lines_text els final \<noteq> [] \<and>
               list_all ended_line els \<and> LF \<notin> set final \<longrightarrow>
               occurs (lit ''<div>'' @ rendered_lines enc (map fst els @ [final]) @
                       lit ''</div>'') page) \<and>
            (\<forall>c com. comment f = Some c \<and> com \<in> set (comments c) \<longrightarrow>
               occurs (lit ''Comment by '' @ displayName com @ lit ''<br>'') page \<and>
               (\<forall>els final.
                  body com = lines_text els final \<and> list_all ended_line els \<and>
                  LF \<notin> set final \<longrightarrow>
                  occurs (lit ''</b>'' @ rendered_lines enc (map fst els @ [final]) @
                          lit ''</div><br>'') page))) \<and>
         (\<forall>d. \<exists>els final.
            d = lines_text els final \<and> list_all ended_line els \<and> LF \<notin> set final) \<and>
         (list_all (\<lambda>j. ifields j \<noteq> None) issues \<longrightarrow>
            (\<exists>tbody.
               tbody_loop issues [] = Inr tbody \<and>
               (\<forall>j g. j \<in> set issues \<and> ifields j = Some g \<longrightarrow>
                  occurs (lit ''<tr><td><a href=\"'' @ key j @ lit ''\">'' @ key j @
                          lit ''</a></td><td>'' @ summary g @ lit ''</td></tr>'') tbody)))"
proof (intro conjI)
  let ?h = "lit ''<h1>'' @ key i @ lit '': '' @ summary f @ lit ''</h1>'' @ [LF]"
  let ?R = "resolution_html D f" and ?F = "fixversions_html f"
  let ?Ds = "description_html (format_markup enc) f"
  let ?Cs = "comments_html D (format_markup enc) f"
  let ?page = "?h @ ?R @ ?F @ ?Ds @ ?Cs"
  have page: "snd (format_issue D (format_markup enc) i) = Inr ?page"
    by (simp add: format_issue_closed [OF assms])
  have head: "starts_with (lit ''<h1>'' @ key i @ lit '': '' @ summary f @ lit ''</h1>'') ?page"
    unfolding starts_with_iff by simp
  have inR: "occurs x ?page" if "occurs x ?R" for x
    using occurs_within [OF that, of ?h "?F @ ?Ds @ ?Cs"] by simp
  have inF: "occurs x ?page" if "occurs x ?F" for x
    using occurs_within [OF that, of "?h @ ?R" "?Ds @ ?Cs"] by simp
  have inDs: "occurs x ?page" if "occurs x ?Ds" for x
    using occurs_within [OF that, of "?h @ ?R @ ?F" "?Cs"] by simp
  have inCs: "occurs x ?page" if "occurs x ?Cs" for x
    using occurs_within [OF that, of "?h @ ?R @ ?F @ ?Ds" "[]"] by simp
  have res: "\<forall>r. resolution f = Some r \<longrightarrow>
      occurs (lit ''<p><b>'' @ res_name r @ lit '':</b> '' @ res_description r @ lit ''<br>'') ?page"
    by (intro allI impI inR occurs_resolution)
  have fxv: "\<forall>fvs fv. fixVersions f = Some fvs \<and> fv \<in> set fvs \<longrightarrow>
      (\<forall>rd. releaseDate fv = Some rd \<longrightarrow>
         occurs (lit ''<p><b>'' @ fv_name fv @ lit ''</b> (Release Date: '' @ rd @
                 lit '')</p>'') ?page) \<and>
      (releaseDate fv = None \<longrightarrow>
         occurs (lit ''<p><b>'' @ fv_name fv @
                 lit ''</b> (Release Date: undefined)</p>'') ?page)"
  proof (intro allI impI conjI, elim conjE)
    fix fvs fv rd
    assume "releaseDate fv = Some rd" "fixVersions f = Some fvs" "fv \<in> set fvs"
    then show "occurs (lit ''<p><b>'' @ fv_name fv @ lit ''</b> (Release Date: '' @ rd @
                 lit '')</p>'') ?page"
      by (intro inF) (rule occurs_release_date)
  next
    fix fvs fv
    assume a: "fixVersions f = Some fvs \<and> fv \<in> set fvs" and n: "releaseDate fv = None"
    from a have a1: "fixVersions f = Some fvs" and a2: "fv \<in> set fvs" by simp_all
    show "occurs (lit ''<p><b>'' @ fv_name fv @
                 lit ''</b> (Release Date: undefined)</p>'') ?page"
      by (intro inF) (rule occurs_no_release_date [OF a1 a2 n])
  qed
  have desc: "\<forall>els final.
      description f = Some (lines_text els final) \<and> lines_text els final \<noteq> [] \<and>
      list_all ended_line els \<and> LF \<notin> set final \<longrightarrow>
      occurs (lit ''<div>'' @ rendered_lines enc (map fst els @ [final]) @ lit ''</div>'') ?page"
  proof (intro allI impI, elim conjE)
    fix els final
    assume d: "description f = Some (lines_text els final)" "lines_text els final \<noteq> []"
      and l: "list_all ended_line els" "LF \<notin> set final"
    have "occurs (lit ''<div>'' @ format_markup enc (lines_text els final) @ lit ''</div>'') ?page"
      by (intro inDs) (rule occurs_description [OF d])
    then show "occurs (lit ''<div>'' @ rendered_lines enc (map fst els @ [final]) @
                lit ''</div>'') ?page"
      by (simp only: format_markup_rendered [OF l])
  qed
  have com: "\<forall>c com. comment f = Some c \<and> com \<in> set (comments c) \<longrightarrow>
      occurs (lit ''Comment by '' @ displayName com @ lit ''<br>'') ?page \<and>
      (\<forall>els final.
         body com = lines_text els final \<and> list_all ended_line els \<and> LF \<notin> set final \<longrightarrow>
         occurs (lit ''</b>'' @ rendered_lines enc (map fst els @ [final]) @
                 lit ''</div><br>'') ?page)"
  proof (intro allI impI conjI, elim conjE)
    fix c com
    assume c: "comment f = Some c" "com \<in> set (comments c)"
    have "occurs (lit ''Comment by '' @ displayName com @ lit ''<br>'') ?Cs"
      by (rule occurs_comments [OF c]) (rule occurs_author)
    then show "occurs (lit ''Comment by '' @ displayName com @ lit ''<br>'') ?page"
      by (rule inCs)
  next
    fix c com els final
    assume c: "comment f = Some c \<and> com \<in> set (comments c)"
      and b: "body com = lines_text els final \<and> list_all ended_line els \<and> LF \<notin> set final"
    from c have c1: "comment f = Some c" and c2: "com \<in> set (comments c)" by simp_all
    from b have b1: "body com = lines_text els final"
      and l: "list_all ended_line els" "LF \<notin> set final" by simp_all
    have "occurs (lit ''</b>'' @ format_markup enc (body com) @ lit ''</div><br>'') ?Cs"
      by (rule occurs_comments [OF c1 c2]) (rule occurs_body)
    then have "occurs (lit ''</b>'' @ format_markup enc (body com) @ lit ''</div><br>'') ?page"
      by (rule inCs)
    then show "occurs (lit ''</b>'' @ rendered_lines enc (map fst els @ [final]) @
                 lit ''</div><br>'') ?page"
      by (simp only: b1 format_markup_rendered [OF l])
  qed
  from page head res fxv desc com
  show "\<exists>page.
            snd (format_issue D (format_markup enc) i) = Inr page \<and>
            starts_with (lit ''<h1>'' @ key i @ lit '': '' @ summary f @ lit ''</h1>'') page \<and>
            (\<forall>r. resolution f = Some r \<longrightarrow>
               occurs (lit ''<p><b>'' @ res_name r @ lit '':</b> '' @ res_description r @
                       lit ''<br>'') page) \<and>
            (\<forall>fvs fv. fixVersions f = Some fvs \<and> fv \<in> set fvs \<longrightarrow>
               (\<forall>rd. releaseDate fv = Some rd \<longrightarrow>
                  occurs (lit ''<p><b>'' @ fv_name fv @ lit ''</b> (Release Date: '' @ rd @
                          lit '')</p>'') page) \<and>
               (releaseDate fv = None \<longrightarrow>
                  occurs (lit ''<p><b>'' @ fv_name fv @
                          lit ''</b> (Release Date: undefined)</p>'') page)) \<and>
            (\<forall>els final.
               description f = Some (lines_text els final) \<and> lines_text els final \<noteq> [] \<and>
               list_all ended_line els \<and> LF \<notin> set final \<longrightarrow>
               occurs (lit ''<div>'' @ rendered_lines enc (map fst els @ [final]) @
                       lit ''</div>'') page) \<and>
            (\<forall>c com. comment f = Some c \<and> com \<in> set (comments c) \<longrightarrow>
               occurs (lit ''Comment by '' @ displayName com @ lit ''<br>'') page \<and>
               (\<forall>els final.
                  body com = lines_text els final \<and> list_all ended_line els \<and>
                  LF \<notin> set final \<longrightarrow>
                  occurs (lit ''</b>'' @ rendered_lines enc (map fst els @ [final]) @
                          lit ''</div><br>'') page))"
    by (intro exI [of _ ?page] conjI)
next
  show "\<forall>d. \<exists>els final.
      d = lines_text els final \<and> list_all ended_line els \<and> LF \<notin> set final"
    by (intro allI text_has_lines)
next
  show "list_all (\<lambda>j. ifields j \<noteq> None) issues \<longrightarrow>
            (\<exists>tbody.
               tbody_loop issues [] = Inr tbody \<and>
               (\<forall>j g. j \<in> set issues \<and> ifields j = Some g \<longrightarrow>
                  occurs (lit ''<tr><td><a href=\"'' @ key j @ lit ''\">'' @ key j @
                          lit ''</a></td><td>'' @ summary g @ lit ''</td></tr>'') tbody))"
  proof
    assume all: "list_all (\<lambda>j. ifields j \<noteq> None) issues"
    have t: "tbody_loop issues [] = Inr (concat (map index_row issues))"
      using tbody_loop_closed [OF all, of "[]"] by simp
    have rows: "\<forall>j g. j \<in> set issues \<and> ifields j = Some g \<longrightarrow>
        occurs (lit ''<tr><td><a href=\"'' @ key j @ lit ''\">'' @ key j @
                lit ''</a></td><td>'' @ summary g @ lit ''</td></tr>'')
          (concat (map index_row issues))"
    proof (intro allI impI, elim conjE)
      fix j g
      assume j: "j \<in> set issues" and g: "ifields j = Some g"
      show "occurs (lit ''<tr><td><a href=\"'' @ key j @ lit ''\">'' @ key j @
                lit ''</a></td><td>'' @ summary g @ lit ''</td></tr>'')
          (concat (map index_row issues))"
        by (rule occurs_concat_map [where g = index_row and y = j, OF j occurs_index_row [OF g]])
    qed
    from t rows show "\<exists>tbody.
               tbody_loop issues [] = Inr tbody \<and>
               (\<forall>j g. j \<in> set issues \<and> ifields j = Some g \<longrightarrow>
                  occurs (lit ''<tr><td><a href=\"'' @ key j @ lit ''\">'' @ key j @
                          lit ''</a></td><td>'' @ summary g @ lit ''</td></tr>'') tbody)"
      by (intro exI [of _ "concat (map index_row issues)"] conjI)
  qed
qed

theorem fields_embedded_raw_witness:
  "\<exists>page tbody.
     snd (format_issue example_dates (format_markup ent_encode) full_issue) = Inr page \<and>
     starts_with (lit ''<h1>ABC-1: <script>alert(1)</script></h1>'') page \<and>
     occurs (lit ''<p><b>Fixed:</b> A <b>fix</b><br>'') page \<and>
     occurs (lit ''<p><b>7.0</b> (Release Date: undefined)</p>'') page \<and>
     occurs (lit ''<p><b>7.1</b> (Release Date: 2014-02 <i>planned</i>)</p>'') page \<and>
     occurs (lit ''<div>a&amp;b<br>'' @ [LF] @ lit ''&lt;i&gt;c&lt;/i&gt;<br>'' @ [LF] @
             lit ''</div>'') page \<and>
     occurs (lit ''Comment by <i>Ann</i><br>'') page \<and>
     occurs (lit ''</b>first<br>'' @ [LF] @ lit ''</div><br>'') page \<and>
     occurs (lit ''Comment by Bob<br>'') page \<and>
     occurs (lit ''</b>x&lt;y<br>'' @ [LF] @ lit ''</div><br>'') page \<and>
     tbody_loop [full_issue] [] = Inr tbody \<and>
     occurs (lit ''<tr><td><a href=\"ABC-1\">ABC-1</a></td>'' @
             lit ''<td><script>alert(1)</script></td></tr>'') tbody"
proof -
  note t = fields_embedded_raw [OF ifields_full_issue full_dates_ok, of ent_encode "[full_issue]"]
  from t obtain page where
    p: "snd (format_issue example_dates (format_markup ent_encode) full_issue) = Inr page"
    and h: "starts_with (lit ''<h1>'' @ key full_issue @ lit '': '' @ summary full_fields @
                  lit ''</h1>'') page"
    and r: "\<forall>r. resolution full_fields = Some r \<longrightarrow>
               occurs (lit ''<p><b>'' @ res_name r @ lit '':</b> '' @ res_description r @
                       lit ''<br>'') page"
    and v: "\<forall>fvs fv. fixVersions full_fields = Some fvs \<and> fv \<in> set fvs \<longrightarrow>
               (\<forall>rd. releaseDate fv = Some rd \<longrightarrow>
                  occurs (lit ''<p><b>'' @ fv_name fv @ lit ''</b> (Release Date: '' @ rd @
                          lit '')</p>'') page) \<and>
               (releaseDate fv = None \<longrightarrow>
                  occurs (lit ''<p><b>'' @ fv_name fv @
                          lit ''</b> (Release Date: undefined)</p>'') page)"
    and d: "\<forall>els final.
               description full_fields = Some (lines_text els final) \<and>
               lines_text els final \<noteq> [] \<and>
               list_all ended_line els \<and> LF \<notin> set final \<longrightarrow>
               occurs (lit ''<div>'' @ rendered_lines ent_encode (map fst els @ [final]) @
                       lit ''</div>'') page"
    and c: "\<forall>c com. comment full_fields = Some c \<and> com \<in> set (comments c) \<longrightarrow>
               occurs (lit ''Comment by '' @ displayName com @ lit ''<br>'') page \<and>
               (\<forall>els final.
                  body com = lines_text els final \<and> list_all ended_line els \<and>
                  LF \<notin> set final \<longrightarrow>
                  occurs (lit ''</b>'' @ rendered_lines ent_encode (map fst els @ [final]) @
                          lit ''</div><br>'') page)"
    by (elim conjE exE)
  have all: "list_all (\<lambda>j. ifields j \<noteq> None) [full_issue]"
    by (simp add: full_issue_def)
  from t [THEN conjunct2, THEN conjunct2, THEN mp, OF all] obtain tbody where
    tb: "tbody_loop [full_issue] [] = Inr tbody"
    and rows: "\<forall>j g. j \<in> set [full_issue] \<and> ifields j = Some g \<longrightarrow>
                  occurs (lit ''<tr><td><a href=\"'' @ key j @ lit ''\">'' @ key j @
                          lit ''</a></td><td>'' @ summary g @ lit ''</td></tr>'') tbody"
    by (elim conjE exE)
  have h': "starts_with (lit ''<h1>ABC-1: <script>alert(1)</script></h1>'') page"
    using h by (simp add: full_issue_def full_fields_def lit_def)
  have r': "occurs (lit ''<p><b>Fixed:</b> A <b>fix</b><br>'') page"
    using r [rule_format, of "\<lparr>res_name = lit ''Fixed'', res_description = lit ''A <b>fix</b>''\<rparr>"]
    by (simp add: full_fields_def lit_def)
  let ?v0 = "\<lparr>fv_name = lit ''7.0'', releaseDate = None\<rparr>"
  let ?v1 = "\<lparr>fv_name = lit ''7.1'', releaseDate = Some (lit ''2014-02 <i>planned</i>'')\<rparr>"
  have v0: "occurs (lit ''<p><b>7.0</b> (Release Date: undefined)</p>'') page"
    using v [rule_format, of "[?v0, ?v1]" ?v0, THEN conjunct2]
    by (simp add: full_fields_def lit_def)
  have v1: "occurs (lit ''<p><b>7.1</b> (Release Date: 2014-02 <i>planned</i>)</p>'') page"
    using v [rule_format, of "[?v0, ?v1]" ?v1, THEN conjunct1, rule_format,
        of "lit ''2014-02 <i>planned</i>''"]
    by (simp add: full_fields_def lit_def)
  have fa: "\<not> fence_marker (lit ''a&b'')" "\<not> fence_marker (lit ''<i>c</i>'')"
    "\<not> fence_marker (lit ''first'')" "\<not> fence_marker (lit ''x<y'')"
    by (simp_all add: is_fence_iff [symmetric] is_fence_def lit_def)
  have d': "occurs (lit ''<div>a&amp;b<br>'' @ [LF] @ lit ''&lt;i&gt;c&lt;/i&gt;<br>'' @ [LF] @
             lit ''</div>'') page"
    using d [rule_format, of "[(lit ''a&b'', [CR, LF])]" "lit ''<i>c</i>''"] fa
    by (simp add: full_fields_def ended_line_def rendered_lines_def rendered_line_def
        ent_encode_def ent_char_def lit_def LF_def CR_def)
  have ca: "occurs (lit ''Comment by <i>Ann</i><br>'') page \<and>
     occurs (lit ''</b>first<br>'' @ [LF] @ lit ''</div><br>'') page"
    using c [rule_format, of full_comments ann_comment, THEN conjunct1]
      c [rule_format, of full_comments ann_comment, THEN conjunct2, rule_format,
        of "[]" "lit ''first''"] fa
    by (simp add: full_fields_def full_comments_def ann_comment_def
        rendered_lines_def rendered_line_def ent_encode_def ent_char_def lit_def LF_def)
  have cb: "occurs (lit ''Comment by Bob<br>'') page \<and>
     occurs (lit ''</b>x&lt;y<br>'' @ [LF] @ lit ''</div><br>'') page"
    using c [rule_format, of full_comments bob_comment, THEN conjunct1]
      c [rule_format, of full_comments bob_comment, THEN conjunct2, rule_format,
        of "[]" "lit ''x<y''"] fa
    by (simp add: full_fields_def full_comments_def bob_comment_def
        rendered_lines_def rendered_line_def ent_encode_def ent_char_def lit_def LF_def)
  have rows': "occurs (lit ''<tr><td><a href=\"ABC-1\">ABC-1</a></td>'' @
             lit ''<td><script>alert(1)</script></td></tr>'') tbody"
    using rows [rule_format, of full_issue full_fields]
    by (simp add: full_issue_def full_fields_def lit_def)
  from p h' r' v0 v1 d' ca cb tb rows' show ?thesis
    by (intro exI [of _ page] exI [of _ tbody] conjI) (elim conjE, assumption)+
qed

text \<open>The page of the example issue, and the rows of an index, as text.\<close>

lemma full_issue_page:
  "snd (format_issue example_dates (format_markup ent_encode) full_issue) =
     Inr (lit ''<h1>ABC-1: <script>alert(1)</script></h1>'' @ [LF] @
          lit ''<h2>Resolution</h2>'' @ [LF] @
          lit ''<p><b>Fixed:</b> A <b>fix</b><br>'' @ [LF] @
          lit ''(Resolution Date: 2014-01-02T00:00:00.000Z)</p>'' @ [LF] @
          lit ''<h2>Fix Versions</h2>'' @ [LF] @
          lit ''<p><b>7.0</b> (Release Date: undefined)</p>'' @ [LF] @
          lit ''<p><b>7.1</b> (Release Date: 2014-02 <i>planned</i>)</p>'' @ [LF] @
          lit ''<h2>Description</h2>'' @ [LF] @
          lit ''<div>a&amp;b<br>'' @ [LF] @
          lit ''&lt;i&gt;c&lt;/i&gt;<br>'' @ [LF] @
          lit ''</div>'' @ [LF] @
          lit ''<h2>Comments</h2>'' @ [LF] @
          lit ''<div style=\"background-color: #EEEEEE;\">'' @ [LF] @
          lit ''<b>Comment by <i>Ann</i><br>'' @ [LF] @
          lit ''Created at 2014-01-01T00:00:00.000Z<br>'' @ [LF] @
          lit ''</b>first<br>'' @ [LF] @
          lit ''</div><br>'' @ [LF] @
          lit ''<div style=\"background-color: #DDDDDD;\">'' @ [LF] @
          lit ''<b>Comment by Bob<br>'' @ [LF] @
          lit ''Created at 2014-01-01T00:00:00.000Z<br>'' @ [LF] @
          lit ''Updated at 2014-01-02T00:00:00.000Z<br>'' @ [LF] @
          lit ''</b>x&lt;y<br>'' @ [LF] @
          lit ''</div><br>'' @ [LF])"
  by (simp add: format_issue_def full_issue_def full_fields_def full_comments_def
      ann_comment_def bob_comment_def example_dates_def resolution_step_def fix_step_def
      desc_step_def comment_step_def updated_line_def new_Date_def toISOString_def js_str_def
      format_markup_def is_fence_def ent_encode_def ent_char_def lit_def BR_def LF_def CR_def)

lemma index_rows_text:
  "tbody_loop [\<lparr>key = lit ''ABC-1'', ifields = Some (example_fields\<lparr>summary := lit ''<i>x</i>''\<rparr>)\<rparr>] [] =
     Inr (lit ''<tr><td><a href=\"ABC-1\">ABC-1</a></td><td><i>x</i></td></tr>'' @ [LF])"
  by (simp add: example_fields_def lit_def)

section \<open>Properties of the request handlers\<close>

lemma not_upper_dash: "\<not> is_upper 0x2D"
  by (simp add: is_upper_def)

lemma key_match_iff: "key_match s = key_pattern s"
proof
  assume m: "key_match s"
  then obtain h d where r: "dropWhile is_upper s = h # d"
    by (auto simp: key_match_def split: list.splits)
  with m have h: "h = 0x2D" and d: "d \<noteq> []" "list_all is_digit d"
    and a: "takeWhile is_upper s \<noteq> []"
    by (auto simp: key_match_def)
  have "s = takeWhile is_upper s @ [0x2D] @ d"
    using takeWhile_dropWhile_id [of is_upper s] r h by simp
  moreover have "list_all is_upper (takeWhile is_upper s)"
    by (auto simp: list_all_iff dest: set_takeWhileD)
  ultimately show "key_pattern s"
    unfolding key_pattern_def using a d by blast
next
  assume "key_pattern s"
  then obtain a d where s: "s = a @ [0x2D] @ d" and a: "a \<noteq> []" "list_all is_upper a"
    and d: "d \<noteq> []" "list_all is_digit d"
    unfolding key_pattern_def by blast
  have t: "takeWhile is_upper s = a"
    using a(2) by (simp add: s takeWhile_tail not_upper_dash list_all_iff)
  have dr: "dropWhile is_upper s = 0x2D # d"
    using a(2) by (simp add: s dropWhile_append2 list_all_iff not_upper_dash)
  show "key_match s"
    by (simp add: key_match_def t dr a d)
qed

lemma key_ABC_1: "key_match (lit ''ABC-1'')"
  by (simp add: key_match_def lit_def is_upper_def is_digit_def)

lemma key_abc_1: "\<not> key_match (lit ''abc-1'')"
  by (simp add: key_match_def lit_def is_upper_def is_digit_def)

lemma key_ABC1: "\<not> key_match (lit ''ABC1'')"
  by (simp add: key_match_def lit_def is_upper_def is_digit_def)

lemma key_pattern_ABC_1: "lit ''ABC-1'' \<noteq> [] \<and> key_pattern (lit ''ABC-1'')"
  using key_ABC_1 by (simp add: key_match_iff lit_def)

lemma part0_gate:
  assumes "k \<noteq> []" and "key_pattern k"
    and "jira (url_path C @ lit ''/issue/'' @ k) = JiraOk (Some i)"
    and "ifields i = Some f" and "labels f = Some ls" and "lit ''public'' \<notin> set ls"
  shows "handle_issue_part0 C D jira (Some k) =
           \<lparr>calls = [url_path C @ lit ''/issue/'' @ k], logged = [],
            outcome = Inr (send 403 not_public_body)\<rparr>"
  using assms by (simp add: handle_issue_part0_def key_match_iff Let_def)

lemma jirapub_gate:
  assumes "k \<noteq> []" and "key_pattern k"
    and "jira (url_path C @ lit ''/issue/'' @ k) = JiraOk (Some i)"
    and "ifields i = Some f" and "labels f = Some ls" and "label C \<notin> set ls"
  shows "handle_issue_jirapub C D jira (Some k) =
           \<lparr>calls = [url_path C @ lit ''/issue/'' @ k],
            logged = [(Error, lit ''request for non-public issue'')],
            outcome = Inr (send 403 not_public_body)\<rparr>"
  using assms by (simp add: handle_issue_jirapub_def key_match_iff Let_def)

lemma utf8_length_ascii: "list_all (\<lambda>c. c < 0x80) s \<Longrightarrow> utf8_length s = length s"
proof (induction s rule: utf8_length.induct)
  case 1
  then show ?case by simp
next
  case (2 c)
  then show ?case by (simp add: unit_bytes_def)
next
  case (3 c d cs)
  then have "c < 0x80" by simp
  then have "\<not> 0xD800 \<le> c" by (simp add: word_less_def word_le_def)
  with 3 show ?case by (simp add: unit_bytes_def)
qed

lemma handle_issue_200:
  assumes "outcome (handle_issue C T D enc jira keyp) = Inr r" and "status r = 200"
  shows "contentType r = Some (lit ''text/html'') \<and> contentLength r = Some (length (written r))"
  using assms
  by (auto simp: handle_issue_def invalid_key_def format_error_def serve_issue_def send_def
      deliver_def Let_def
      split: option.splits if_splits jira_reply.splits sum.splits prod.splits)

text \<open>
  C3. A request whose key is missing, empty or outside the pattern
  \<open>^[A-Z]+-[0-9]+$\<close> is answered with 400, and the tracker is not asked anything:
  no URL is requested, and the run is the same whatever the tracker would have answered.
\<close>

theorem invalid_key_400:
  assumes "\<forall>k. keyp = Some k \<longrightarrow> k = [] \<or> \<not> key_pattern k"
  shows "outcome (handle_issue C T D enc jira keyp) = Inr (send 400 []) \<and>
         status (send 400 []) = 400 \<and>
         calls (handle_issue C T D enc jira keyp) = [] \<and>
         handle_issue C T D enc jira keyp = handle_issue C T D enc jira' keyp"
  using assms
  by (cases keyp) (auto simp: handle_issue_def invalid_key_def key_match_iff send_def)

theorem invalid_key_400_witness:
  "outcome (handle_issue example_config example_templates example_dates ent_encode
              (jira_gives (JiraOk (Some example_issue))) (Some (lit ''abc-1''))) =
     Inr (send 400 []) \<and>
   calls (handle_issue example_config example_templates example_dates ent_encode
              (jira_gives (JiraOk (Some example_issue))) (Some (lit ''abc-1''))) = [] \<and>
   calls (handle_issue example_config example_templates example_dates ent_encode
              (jira_gives (JiraOk (Some example_issue))) (Some (lit ''ABC1''))) = [] \<and>
   calls (handle_issue example_config example_templates example_dates ent_encode
              (jira_gives (JiraOk (Some example_issue))) (Some [])) = []"
proof -
  have h1: "\<forall>k. Some (lit ''abc-1'') = Some k \<longrightarrow> k = [] \<or> \<not> key_pattern k"
    using key_abc_1 by (simp add: key_match_iff)
  have h2: "\<forall>k. Some (lit ''ABC1'') = Some k \<longrightarrow> k = [] \<or> \<not> key_pattern k"
    using key_ABC1 by (simp add: key_match_iff)
  have h3: "\<forall>k. Some ([] :: jsstring) = Some k \<longrightarrow> k = [] \<or> \<not> key_pattern k"
    by simp
  note a = invalid_key_400 [OF h1, of example_config example_templates example_dates
      ent_encode "jira_gives (JiraOk (Some example_issue))" "jira_gives (JiraOk None)"]
  note b = invalid_key_400 [OF h2, of example_config example_templates example_dates
      ent_encode "jira_gives (JiraOk (Some example_issue))" "jira_gives (JiraOk None)"]
  note c = invalid_key_400 [OF h3, of example_config example_templates example_dates
      ent_encode "jira_gives (JiraOk (Some example_issue))" "jira_gives (JiraOk None)"]
  show ?thesis
    using a b c by (intro conjI) (elim conjE, assumption)+
qed

text \<open>
  C4. For a request with a valid key: when the tracker reports NotFoundError the answer
  is 404 with the body \<open>Sorry, that issue does not exist.\<close> and a line feed; when it
  reports any other error the answer is 500 with an empty body, whatever the error's
  message; when the fetch succeeds and the document is missing, or has no \<open>fields\<close>, or
  no \<open>fields.labels\<close>, the answer is 500 with an empty body.
\<close>

theorem upstream_outcomes:
  assumes "k \<noteq> []" and "key_pattern k"
  shows "(jira (url_path C @ lit ''/issue/'' @ k) = JiraError (lit ''NotFoundError'') msg \<longrightarrow>
            outcome (handle_issue C T D enc jira (Some k)) =
              Inr \<lparr>status = 404, contentType = None, contentLength = None,
                   written = lit ''Sorry, that issue does not exist.'' @ [LF]\<rparr>) \<and>
         (jira (url_path C @ lit ''/issue/'' @ k) = JiraError nam msg \<and>
            nam \<noteq> lit ''NotFoundError'' \<longrightarrow>
            outcome (handle_issue C T D enc jira (Some k)) =
              Inr \<lparr>status = 500, contentType = None, contentLength = None, written = []\<rparr>) \<and>
         (jira (url_path C @ lit ''/issue/'' @ k) = JiraOk None \<or>
          jira (url_path C @ lit ''/issue/'' @ k) = JiraOk (Some i) \<and>
            (ifields i = None \<or> (\<exists>f. ifields i = Some f \<and> labels f = None)) \<longrightarrow>
            outcome (handle_issue C T D enc jira (Some k)) =
              Inr \<lparr>status = 500, contentType = None, contentLength = None, written = []\<rparr>)"
  using assms
  by (auto simp: handle_issue_def key_match_iff format_error_def not_found_body_def
      send_def Let_def)

theorem upstream_outcomes_witness:
  "outcome (handle_issue example_config example_templates example_dates ent_encode
      (jira_gives (JiraError (lit ''NotFoundError'') (lit ''no such issue'')))
      (Some (lit ''ABC-1''))) =
     Inr \<lparr>status = 404, contentType = None, contentLength = None,
          written = lit ''Sorry, that issue does not exist.'' @ [LF]\<rparr> \<and>
   outcome (handle_issue example_config example_templates example_dates ent_encode
      (jira_gives (JiraError (lit ''ConnectTimeoutError'') (lit ''connect timeout after 15000ms'')))
      (Some (lit ''ABC-1''))) =
     Inr \<lparr>status = 500, contentType = None, contentLength = None, written = []\<rparr> \<and>
   outcome (handle_issue example_config example_templates example_dates ent_encode
      (jira_gives (JiraOk (Some \<lparr>key = lit ''ABC-1'', ifields = None\<rparr>)))
      (Some (lit ''ABC-1''))) =
     Inr \<lparr>status = 500, contentType = None, contentLength = None, written = []\<rparr>"
proof -
  note k = key_pattern_ABC_1 [THEN conjunct1] key_pattern_ABC_1 [THEN conjunct2]
  have n: "lit ''ConnectTimeoutError'' \<noteq> lit ''NotFoundError''"
    by (simp add: lit_def)
  show ?thesis
    using n
      upstream_outcomes [OF k, where C = example_config and T = example_templates
        and D = example_dates and enc = ent_encode and msg = "lit ''no such issue''"
        and jira = "jira_gives (JiraError (lit ''NotFoundError'') (lit ''no such issue''))"]
      upstream_outcomes [OF k, where C = example_config and T = example_templates
        and D = example_dates and enc = ent_encode and nam = "lit ''ConnectTimeoutError''"
        and msg = "lit ''connect timeout after 15000ms''"
        and jira = "jira_gives (JiraError (lit ''ConnectTimeoutError'')
                      (lit ''connect timeout after 15000ms''))"]
      upstream_outcomes [OF k, where C = example_config and T = example_templates
        and D = example_dates and enc = ent_encode
        and i = "\<lparr>key = lit ''ABC-1'', ifields = None\<rparr>"
        and jira = "jira_gives (JiraOk (Some \<lparr>key = lit ''ABC-1'', ifields = None\<rparr>))"]
    by (simp add: jira_gives_def)
qed

text \<open>
  C1. For a fetched issue that has labels: a 200 response is given only when the
  configured label is one of the labels (equality of strings, so case matters); when it
  is not, the handler stops with status 403 and the body
  \<open>Sorry, this issue is not public.\<close> and a line feed, whatever the issue holds, having
  logged one line and without running the composer.
\<close>

theorem label_gate:
  assumes "k \<noteq> []" and "key_pattern k"
    and "jira (url_path C @ lit ''/issue/'' @ k) = JiraOk (Some i)"
    and "ifields i = Some f" and "labels f = Some ls"
  shows "(\<forall>r. outcome (handle_issue C T D enc jira (Some k)) = Inr r \<longrightarrow> status r = 200 \<longrightarrow>
            label C \<in> set ls) \<and>
         (label C \<notin> set ls \<longrightarrow>
            handle_issue C T D enc jira (Some k) =
              \<lparr>calls = [url_path C @ lit ''/issue/'' @ k],
               logged = [(Error, lit ''request for non-public issue'')],
               outcome = Inr \<lparr>status = 403, contentType = None, contentLength = None,
                 written = lit ''Sorry, this issue is not public.'' @ [LF]\<rparr>\<rparr>)"
proof -
  have gate: "handle_issue C T D enc jira (Some k) =
      \<lparr>calls = [url_path C @ lit ''/issue/'' @ k],
       logged = [(Error, lit ''request for non-public issue'')],
       outcome = Inr \<lparr>status = 403, contentType = None, contentLength = None,
                 written = lit ''Sorry, this issue is not public.'' @ [LF]\<rparr>\<rparr>"
    if "label C \<notin> set ls"
    using assms that
    by (simp add: handle_issue_def key_match_iff not_public_body_def send_def Let_def)
  have "label C \<in> set ls"
    if "outcome (handle_issue C T D enc jira (Some k)) = Inr r" "status r = 200" for r
  proof (rule ccontr)
    assume "label C \<notin> set ls"
    from gate [OF this] that show False by auto
  qed
  with gate show ?thesis by blast
qed

theorem label_gate_witness:
  "handle_issue example_config example_templates example_dates ent_encode
      (jira_gives (JiraOk (Some private_issue))) (Some (lit ''ABC-1'')) =
    \<lparr>calls = [lit ''/rest/api/2/issue/ABC-1''],
     logged = [(Error, lit ''request for non-public issue'')],
     outcome = Inr \<lparr>status = 403, contentType = None, contentLength = None,
       written = lit ''Sorry, this issue is not public.'' @ [LF]\<rparr>\<rparr>"
proof -
  note k = key_pattern_ABC_1 [THEN conjunct1] key_pattern_ABC_1 [THEN conjunct2]
  have j: "jira_gives (JiraOk (Some private_issue))
             (url_path example_config @ lit ''/issue/'' @ lit ''ABC-1'') =
           JiraOk (Some private_issue)"
    by (simp add: jira_gives_def)
  have f: "ifields private_issue =
           Some (example_fields\<lparr>labels := Some [lit ''internal'', lit ''Public'']\<rparr>)"
    by (simp add: private_issue_def)
  have l: "labels (example_fields\<lparr>labels := Some [lit ''internal'', lit ''Public'']\<rparr>) =
           Some [lit ''internal'', lit ''Public'']"
    by simp
  have n: "label example_config \<notin> set [lit ''internal'', lit ''Public'']"
    by (simp add: example_config_def lit_def)
  show ?thesis
    using label_gate [where k = "lit ''ABC-1''" and C = example_config
        and jira = "jira_gives (JiraOk (Some private_issue))" and i = private_issue
        and f = "example_fields\<lparr>labels := Some [lit ''internal'', lit ''Public'']\<rparr>"
        and ls = "[lit ''internal'', lit ''Public'']"
        and T = example_templates and D = example_dates and enc = ent_encode, OF k j f l] n
    by (simp add: example_config_def lit_def)
qed

text \<open>
  part_000 answers 403 in the same way, for the label \<open>public\<close> whatever the
  configuration says.
\<close>

lemma part0_label_fixed:
  "handle_issue_part0 (C\<lparr>label := l\<rparr>) D jira keyp = handle_issue_part0 C D jira keyp"
  by (simp add: handle_issue_part0_def cong: option.case_cong if_cong)

subsection \<open>The page in the template\<close>

text \<open>
  A replacement text without \<open>$\<close> is put in as it is, and a text without the first
  character of the pattern is left as it is.
\<close>

lemma expand_plain: "0x24 \<notin> set r \<Longrightarrow> expand r m bef aft = r"
  by (induction r m bef aft rule: expand.induct) auto

lemma replace_from_none: "p \<noteq> [] \<Longrightarrow> hd p \<notin> set s \<Longrightarrow> replace_from p r bef s = s"
  by (induction s arbitrary: bef) (auto simp: neq_Nil_conv)

lemma replace_from_once:
  "p \<noteq> [] \<Longrightarrow> hd p \<notin> set h \<Longrightarrow>
   replace_from p r bef (h @ p @ t) =
     h @ expand r p (bef @ h) t @ replace_from p r (bef @ h @ p) t"
proof (induction h arbitrary: bef)
  case Nil
  then obtain x ps where p: "p = x # ps" by (cases p) auto
  have "starts_with p (p @ t)" by (rule starts_with_append)
  then show ?case by (simp add: p)
next
  case (Cons c h)
  then obtain x ps where p: "p = x # ps" and x: "x \<noteq> c" "x \<notin> set h" by (cases p) auto
  have "\<not> starts_with p (c # h @ p @ t)" using x by (simp add: p)
  moreover have "replace_from p r (bef @ [c]) (h @ p @ t) =
      h @ expand r p ((bef @ [c]) @ h) t @ replace_from p r ((bef @ [c]) @ h @ p) t"
    using Cons.prems x by (intro Cons.IH) (simp_all add: p)
  ultimately show ?case by simp
qed

text \<open>
  A template that holds the marker once, and a page without \<open>$\<close>: the page takes the
  place of the marker.
\<close>

lemma replace_container:
  assumes "0x25 \<notin> set h" and "0x25 \<notin> set t" and "0x24 \<notin> set page"
  shows "js_replace_all (lit ''%%CONTAINER%%'') page (h @ lit ''%%CONTAINER%%'' @ t) =
           h @ page @ t"
proof -
  have p: "lit ''%%CONTAINER%%'' \<noteq> []" and hp: "hd (lit ''%%CONTAINER%%'') = 0x25"
    by (simp_all add: lit_def)
  show ?thesis
    unfolding js_replace_all_def
    using replace_from_once [OF p, of h page "[]" t] replace_from_none [OF p, of t]
      expand_plain [OF assms(3)] assms(1,2)
    by (simp add: hp)
qed

text \<open>The steps of a request for a public issue with a valid key.\<close>

lemma format_issue_warns:
  assumes "ifields i = Some f" and "dates_ok D f"
    and "comment f = Some c" and "maxResults c \<noteq> total c"
    and "snd (format_issue D (format_markup enc) i) = Inr page"
  shows "format_issue D (format_markup enc) i = ([(Error, comment_warning)], Inr page)"
proof -
  let ?X = "lit ''<h1>'' @ key i @ lit '': '' @ summary f @ lit ''</h1>'' @ [LF] @
          resolution_html D f @ fixversions_html f @ description_html (format_markup enc) f @
          comments_html D (format_markup enc) f"
  have cl: "format_issue D (format_markup enc) i = (warnings f, Inr ?X)"
    by (rule format_issue_closed [OF assms(1) assms(2)])
  from assms(5) have px: "?X = page"
    unfolding cl by simp
  have w: "warnings f = [(Error, comment_warning)]"
    using assms(3,4) by (simp add: warnings_def)
  show ?thesis
    unfolding cl w px by (rule refl)
qed

lemma serve_issue_plain:
  assumes "T (lit ''primary'') = Some (h @ lit ''%%CONTAINER%%'' @ t)"
    and "0x25 \<notin> set h" and "0x25 \<notin> set t"
    and fi: "format_issue D (format_markup enc) i = ([(Error, comment_warning)], Inr page)"
    and "0x24 \<notin> set page"
  shows "serve_issue T D enc url i =
      \<lparr>calls = [url],
       logged = [(Info, lit ''serving issue''), (Error, comment_warning)],
       outcome = Inr (deliver (h @ page @ t))\<rparr>"
proof -
  have tp: "template T (lit ''primary'') = Inr (h @ lit ''%%CONTAINER%%'' @ t)"
    by (simp add: template_def assms(1))
  show ?thesis
    unfolding serve_issue_def tp fi
    by (simp add: replace_container [OF assms(2,3,5)])
qed

lemma handle_issue_serves:
  assumes "k \<noteq> []" and "key_pattern k"
    and "jira (url_path C @ lit ''/issue/'' @ k) = JiraOk (Some i)"
    and "ifields i = Some f" and "labels f = Some ls" and "label C \<in> set ls"
  shows "handle_issue C T D enc jira (Some k) =
      serve_issue T D enc (url_path C @ lit ''/issue/'' @ k) i"
proof -
  have km: "key_match k" using assms(2) by (simp add: key_match_iff)
  show ?thesis
    using assms(1,3,5,6) km by (simp add: handle_issue_def Let_def assms(4))
qed

text \<open>
  What does hold of the comments: with a template that holds the marker once, and a page
  without \<open>$\<close>, the body of the 200 response is the template with the page in the place
  of the marker, and the page ends with the Comments heading followed by one block for
  each element of \<open>comments\<close>, in order, the block at an even position on the light
  shade \<open>#EEEEEE\<close> and the block at an odd position on \<open>#DDDDDD\<close>.
\<close>

lemma comments_rendered:
  assumes "k \<noteq> []" and "key_pattern k"
    and "jira (url_path C @ lit ''/issue/'' @ k) = JiraOk (Some i)"
    and "ifields i = Some f" and "labels f = Some ls" and "label C \<in> set ls"
    and "T (lit ''primary'') = Some (h @ lit ''%%CONTAINER%%'' @ t)"
    and "0x25 \<notin> set h" and "0x25 \<notin> set t"
    and "dates_ok D f"
    and "comment f = Some c" and "maxResults c \<noteq> total c"
    and "snd (format_issue D (format_markup enc) i) = Inr page" and "0x24 \<notin> set page"
  shows "handle_issue C T D enc jira (Some k) =
           \<lparr>calls = [url_path C @ lit ''/issue/'' @ k],
            logged = [(Info, lit ''serving issue''),
                      (Error, lit ''comment maxResults and total not equal for issue'')],
            outcome = Inr \<lparr>status = 200, contentType = Some (lit ''text/html''),
              contentLength = Some (length (h @ page @ t)), written = h @ page @ t\<rparr>\<rparr>"
proof -
  note fi = format_issue_warns [OF assms(4,10,11,12,13)]
  note sv = serve_issue_plain [where T = T and h = h and t = t and D = D and enc = enc and i = i
      and page = page and url = "url_path C @ lit ''/issue/'' @ k", OF assms(7,8,9) fi assms(14)]
  note hs = handle_issue_serves [where k = k and C = C and jira = jira and i = i and f = f and ls = ls
      and T = T and D = D and enc = enc, OF assms(1,2,3,4,5,6)]
  show ?thesis
    unfolding hs sv deliver_def comment_warning_def by (rule refl)
qed

lemma comments_section:
  assumes "ifields i = Some f" and "dates_ok D f" and "comment f = Some c"
    and "snd (format_issue D markup i) = Inr page"
  shows "\<exists>pre. page = pre @ lit ''<h2>Comments</h2>'' @ [LF] @
                  concat (map (\<lambda>(n, com). comment_html D markup (odd n) com)
                            (enumerate 0 (comments c)))"
proof -
  let ?pre = "lit ''<h1>'' @ key i @ lit '': '' @ summary f @ lit ''</h1>'' @ [LF] @
          resolution_html D f @ fixversions_html f @ description_html markup f"
  have "snd (format_issue D markup i) = Inr (?pre @ comments_html D markup f)"
    by (simp add: format_issue_closed [OF assms(1,2)])
  with assms(4) have "page = ?pre @ comments_html D markup f"
    by simp
  then have "page = ?pre @ lit ''<h2>Comments</h2>'' @ [LF] @
                  concat (map (\<lambda>(n, com). comment_html D markup (odd n) com)
                            (enumerate 0 (comments c)))"
    by (simp add: comments_html_def assms(3))
  then show ?thesis by - (rule exI [of _ ?pre], assumption)
qed

text \<open>
  C8. A comment field whose \<open>maxResults\<close> differs from \<open>total\<close> does not stop the
  page: the handler asks the tracker once, logs the warning and answers 200. But in
  part_001 the page is the replacement text of
  \<open>out.replace(/%%CONTAINER%%/g, format_issue(issue))\<close> (line 227), in which \<open>$$\<close>
  stands for \<open>$\<close>: a comment by \<open>US$$ desk\<close> that says \<open>costs $$5\<close> is shown as a
  comment by \<open>US$ desk\<close> that says \<open>costs $5\<close>. jirapub.js, which puts the page between
  two literals (line 179), shows the comment as it is.
\<close>

theorem dollar_patterns_expanded:
  "handle_issue example_config example_templates example_dates ent_encode
      (jira_gives (JiraOk (Some dollar_issue))) (Some (lit ''ABC-1'')) =
     \<lparr>calls = [lit ''/rest/api/2/issue/ABC-1''],
      logged = [(Info, lit ''serving issue''),
                (Error, lit ''comment maxResults and total not equal for issue'')],
      outcome = Inr \<lparr>status = 200, contentType = Some (lit ''text/html''),
        contentLength = Some 189,
        written = lit ''<body><h1>ABC-1: a bug</h1>'' @ [LF] @
                  lit ''<h2>Comments</h2>'' @ [LF] @
                  lit ''<div style=\"background-color: #EEEEEE;\">'' @ [LF] @
                  lit ''<b>Comment by US$ desk<br>'' @ [LF] @
                  lit ''Created at 2014-01-01T00:00:00.000Z<br>'' @ [LF] @
                  lit ''</b>costs $5<br>'' @ [LF] @
                  lit ''</div><br>'' @ [LF] @
                  lit ''</body>''\<rparr>\<rparr> \<and>
   outcome (handle_issue_jirapub example_config example_dates
      (jira_gives (JiraOk (Some dollar_issue))) (Some (lit ''ABC-1''))) =
     Inr \<lparr>status = 200, contentType = Some (lit ''text/html''),
        contentLength = Some 204,
        written = lit ''<html><body><h1>ABC-1: a bug</h1>'' @ [LF] @
                  lit ''<h2>Comments</h2>'' @ [LF] @
                  lit ''<div style=\"background-color: #EEEEEE;\">'' @ [LF] @
                  lit ''<b>Comment by US$$ desk<br>'' @ [LF] @
                  lit ''Created at 2014-01-01T00:00:00.000Z<br>'' @ [LF] @
                  lit ''</b>costs $$5<br>'' @ [LF] @
                  lit ''</div><br>'' @ [LF] @
                  lit ''</body></html>''\<rparr>"
  by (simp add: handle_issue_def handle_issue_jirapub_def serve_inline_def key_match_def
    is_upper_def is_digit_def lit_def jira_gives_def
    dollar_issue_def dollar_comment_def example_fields_def example_config_def serve_issue_def
    template_def example_templates_def example_dates_def format_issue_def resolution_step_def
    fix_step_def desc_step_def comment_step_def comment_warning_def updated_line_def
    new_Date_def toISOString_def format_markup_def format_markup_jirapub_def is_fence_def
    ent_encode_def ent_char_def BR_def deliver_def js_replace_all_def LF_def)

text \<open>
  C9. The 200 path sets \<open>res.contentType\<close> to \<open>text/html\<close> and \<open>res.contentLength\<close> to
  \<open>out.length\<close>, the number of UTF-16 code units of the body, which is its number of
  bytes only for an ASCII body.
\<close>

lemma handle_issue_index_200:
  assumes "outcome (handle_issue_index C T jira) = Inr r" and "status r = 200"
  shows "contentType r = Some (lit ''text/html'') \<and> contentLength r = Some (length (written r))"
  using assms
  by (auto simp: handle_issue_index_def send_def deliver_def Let_def
      split: option.splits jira_reply.splits sum.splits)

text \<open>
  C9, at an issue whose summary is the one letter U+00E9: the header says 31 (part_001
  with a small template) and 44 (jirapub.js), and the bodies are 32 and 45 bytes long.
\<close>

theorem content_length_not_bytes:
  "outcome (handle_issue example_config example_templates example_dates ent_encode
      (jira_gives (JiraOk (Some accent_issue))) (Some (lit ''ABC-1''))) =
    Inr \<lparr>status = 200, contentType = Some (lit ''text/html''), contentLength = Some 31,
      written = lit ''<body><h1>ABC-1: '' @ [0xE9] @ lit ''</h1>'' @ [LF] @ lit ''</body>''\<rparr> \<and>
   utf8_length (lit ''<body><h1>ABC-1: '' @ [0xE9] @ lit ''</h1>'' @ [LF] @ lit ''</body>'') = 32 \<and>
   outcome (handle_issue_jirapub example_config example_dates
      (jira_gives (JiraOk (Some accent_issue))) (Some (lit ''ABC-1''))) =
    Inr \<lparr>status = 200, contentType = Some (lit ''text/html''), contentLength = Some 44,
      written = lit ''<html><body><h1>ABC-1: '' @ [0xE9] @ lit ''</h1>'' @ [LF] @
                lit ''</body></html>''\<rparr> \<and>
   utf8_length (lit ''<html><body><h1>ABC-1: '' @ [0xE9] @ lit ''</h1>'' @ [LF] @
                lit ''</body></html>'') = 45"
  by (simp add: handle_issue_def handle_issue_jirapub_def serve_inline_def key_match_def
    is_upper_def is_digit_def lit_def jira_gives_def
    accent_issue_def example_fields_def example_config_def serve_issue_def template_def
    example_templates_def format_issue_def resolution_step_def fix_step_def desc_step_def
    comment_step_def deliver_def js_replace_all_def LF_def unit_bytes_def)

text \<open>
  The replacement text of \<open>replace\<close> is the page itself, so the patterns \<open>$&\<close> and \<open>$$\<close>
  in an issue are expanded when the page is put into the template.
\<close>

lemma replacement_patterns:
  "js_replace_all (lit ''%%CONTAINER%%'') (lit ''a$&b$$c'') (lit ''<%%CONTAINER%%>'') =
     lit ''<a%%CONTAINER%%b$c>''"
  by (simp add: js_replace_all_def lit_def)

end
